theory Spec2Isabelle
  imports Main
begin

section \<open>The team builder store (builder/store.tsx)\<close>

text \<open>
  The store keeps a graph of nodes and edges, a history of snapshots and an
  index into that history.  Node and edge objects are never written to after
  they are built, so they are modelled as values.  Component objects, their
  config objects and the arrays hanging off a config are shared between the
  current graph, the history snapshots and the participant lists, and several
  operations write to them in place; they live in an explicit heap, and every
  reference is an address into it.
\<close>

subsection \<open>Errors\<close>

datatype error = TypeError | RangeError

subsection \<open>Heap objects\<close>

text \<open>
  A \<open>Component<T>\<close> object.  Its own fields are only ever read or copied by
  the store (\<open>{ ...component }\<close>); \<open>config\<close> is the address of its config
  object.  \<open>None\<close> stands for a field that is undefined or null.
\<close>

record Component =
  provider :: string
  component_type :: string
  version :: int
  component_version :: int
  label :: "string option"
  description :: "string option"
  config :: nat

text \<open>
  The \<open>workbench\<close> field of an agent config: absent, one component, or an
  array of components (the three cases of \<open>normalizeWorkbenches\<close>).
\<close>

datatype workbench_field = WbUndefined | WbSingle nat | WbArray nat

text \<open>
  A config object, with the fields the store reads or writes.  Component
  valued fields hold component addresses, array valued fields hold array
  addresses; all remaining fields of the config are kept in \<open>other\<close>.
\<close>

record ComponentConfig =
  name :: "string option"
  model_client :: "nat option"
  workbench :: workbench_field
  participants :: "nat option"
  tools :: "nat option"
  termination_condition :: "nat option"
  other :: "(string \<times> string) list"

text \<open>
  The heap: component objects, config objects and arrays of components, each
  with its allocation pointer.  An array element is \<open>Some\<close> component address
  or \<open>None\<close> for undefined.
\<close>

record heap =
  comps :: "nat \<Rightarrow> Component"
  cfgs :: "nat \<Rightarrow> ComponentConfig"
  arrs :: "nat \<Rightarrow> nat option list"
  next_comp :: nat
  next_cfg :: nat
  next_arr :: nat

definition new_comp :: "Component \<Rightarrow> heap \<Rightarrow> nat \<times> heap" where
  "new_comp c h =
     (next_comp h, h\<lparr>comps := (comps h)(next_comp h := c), next_comp := Suc (next_comp h)\<rparr>)"

definition new_cfg :: "ComponentConfig \<Rightarrow> heap \<Rightarrow> nat \<times> heap" where
  "new_cfg c h =
     (next_cfg h, h\<lparr>cfgs := (cfgs h)(next_cfg h := c), next_cfg := Suc (next_cfg h)\<rparr>)"

definition new_arr :: "nat option list \<Rightarrow> heap \<Rightarrow> nat \<times> heap" where
  "new_arr xs h =
     (next_arr h, h\<lparr>arrs := (arrs h)(next_arr h := xs), next_arr := Suc (next_arr h)\<rparr>)"

definition set_cfg :: "nat \<Rightarrow> ComponentConfig \<Rightarrow> heap \<Rightarrow> heap" where
  "set_cfg g c h = h\<lparr>cfgs := (cfgs h)(g := c)\<rparr>"

definition push_arr :: "nat \<Rightarrow> nat option \<Rightarrow> heap \<Rightarrow> heap" where
  "push_arr a x h = h\<lparr>arrs := (arrs h)(a := arrs h a @ [x])\<rparr>"

text \<open>The config object of the component at an address.\<close>

definition cfg_of :: "heap \<Rightarrow> nat \<Rightarrow> ComponentConfig" where
  "cfg_of h c = cfgs h (config (comps h c))"

subsection \<open>JSON values of components\<close>

text \<open>
  The component handed to \<open>addNode\<close> is only read through
  \<open>JSON.parse(JSON.stringify(component))\<close>, so it is given as its JSON tree;
  the clone is that tree allocated afresh in the heap.
\<close>

datatype comp_json =
  CompJ string string int int "string option" "string option" cfg_json
and cfg_json =
  CfgJ "string option" "comp_json option" wb_json "comp_json list option"
       "comp_json list option" "comp_json option" "(string \<times> string) list"
and wb_json = WbJUndefined | WbJSingle comp_json | WbJArray "comp_json list"

fun alloc_comp :: "comp_json \<Rightarrow> heap \<Rightarrow> nat \<times> heap"
and alloc_cfg :: "cfg_json \<Rightarrow> heap \<Rightarrow> nat \<times> heap"
and alloc_wb :: "wb_json \<Rightarrow> heap \<Rightarrow> workbench_field \<times> heap"
and alloc_opt :: "comp_json option \<Rightarrow> heap \<Rightarrow> nat option \<times> heap"
and alloc_elems :: "comp_json list \<Rightarrow> heap \<Rightarrow> nat option list \<times> heap"
and alloc_arr_opt :: "comp_json list option \<Rightarrow> heap \<Rightarrow> nat option \<times> heap"
where
  "alloc_comp (CompJ p ct v cv l d c) h =
     (case alloc_cfg c h of (g, h1) \<Rightarrow>
        new_comp \<lparr>provider = p, component_type = ct, version = v, component_version = cv,
                  label = l, description = d, config = g\<rparr> h1)"
| "alloc_cfg (CfgJ n mc wb ps ts tc ot) h =
     (case alloc_opt mc h of (mc', h1) \<Rightarrow>
      case alloc_wb wb h1 of (wb', h2) \<Rightarrow>
      case alloc_arr_opt ps h2 of (ps', h3) \<Rightarrow>
      case alloc_arr_opt ts h3 of (ts', h4) \<Rightarrow>
      case alloc_opt tc h4 of (tc', h5) \<Rightarrow>
        new_cfg \<lparr>name = n, model_client = mc', workbench = wb', participants = ps',
                 tools = ts', termination_condition = tc', other = ot\<rparr> h5)"
| "alloc_wb WbJUndefined h = (WbUndefined, h)"
| "alloc_wb (WbJSingle c) h = (case alloc_comp c h of (r, h1) \<Rightarrow> (WbSingle r, h1))"
| "alloc_wb (WbJArray cs) h =
     (case alloc_elems cs h of (rs, h1) \<Rightarrow>
      case new_arr rs h1 of (a, h2) \<Rightarrow> (WbArray a, h2))"
| "alloc_opt None h = (None, h)"
| "alloc_opt (Some c) h = (case alloc_comp c h of (r, h1) \<Rightarrow> (Some r, h1))"
| "alloc_elems [] h = ([], h)"
| "alloc_elems (c # cs) h =
     (case alloc_comp c h of (r, h1) \<Rightarrow>
      case alloc_elems cs h1 of (rs, h2) \<Rightarrow> (Some r # rs, h2))"
| "alloc_arr_opt None h = (None, h)"
| "alloc_arr_opt (Some cs) h =
     (case alloc_elems cs h of (rs, h1) \<Rightarrow>
      case new_arr rs h1 of (a, h2) \<Rightarrow> (Some a, h2))"

subsection \<open>Nodes, edges and the store state\<close>

text \<open>Coordinates are stored and copied, never computed with.\<close>

record Position =
  pos_x :: int
  pos_y :: int

record NodeData =
  data_label :: "string option"
  data_component :: nat
  data_type :: string

record CustomNode =
  node_id :: string
  node_position :: Position
  node_type :: string
  node_data :: NodeData

record CustomEdge =
  edge_id :: string
  source :: string
  target :: string
  sourceHandle :: "string option"
  targetHandle :: "string option"
  edge_type :: "string option"

record snapshot =
  snap_nodes :: "CustomNode list"
  snap_edges :: "CustomEdge list"

record TeamBuilderState =
  nodes :: "CustomNode list"
  edges :: "CustomEdge list"
  selectedNodeId :: "string option"
  history :: "snapshot list"
  currentHistoryIndex :: int
  originalComponent :: "nat option"
  teamId :: "string option"

text \<open>The argument of \<open>updateNode\<close>, a \<open>Partial<NodeData>\<close>: \<open>None\<close> is a key not given.\<close>

record NodeUpdates =
  upd_label :: "string option"
  upd_component :: "nat option"
  upd_type :: "string option"

definition MAX_HISTORY :: nat where
  "MAX_HISTORY = 50"

definition initial_state :: TeamBuilderState where
  "initial_state =
     \<lparr>nodes = [], edges = [], selectedNodeId = None, history = [],
      currentHistoryIndex = - 1, originalComponent = None, teamId = None\<rparr>"

definition empty_heap :: heap where
  "empty_heap =
     \<lparr>comps = (\<lambda>_. \<lparr>provider = [], component_type = [], version = 0, component_version = 0,
                      label = None, description = None, config = 0\<rparr>),
      cfgs = (\<lambda>_. \<lparr>name = None, model_client = None, workbench = WbUndefined,
                     participants = None, tools = None, termination_condition = None,
                     other = []\<rparr>),
      arrs = (\<lambda>_. []), next_comp = 0, next_cfg = 0, next_arr = 0\<rparr>"

subsection \<open>JavaScript primitives used by the store\<close>

text \<open>\<open>xs.slice(0, e)\<close>: a negative end counts from the end of the array.\<close>

definition js_slice0 :: "'a list \<Rightarrow> int \<Rightarrow> 'a list" where
  "js_slice0 xs e =
     (if e < 0 then take (nat (int (length xs) + e)) xs else take (nat e) xs)"

text \<open>\<open>xs.slice(-n)\<close>: the last \<open>n\<close> elements, all of them when there are fewer.\<close>

definition js_slice_last :: "nat \<Rightarrow> 'a list \<Rightarrow> 'a list" where
  "js_slice_last n xs = drop (length xs - n) xs"

text \<open>\<open>xs[i]\<close>: undefined outside the array.\<close>

definition js_index :: "'a list \<Rightarrow> int \<Rightarrow> 'a option" where
  "js_index xs i = (if 0 \<le> i \<and> i < int (length xs) then Some (xs ! nat i) else None)"

text \<open>\<open>a || b\<close> on strings that may be undefined: the empty string is falsy.\<close>

definition str_or :: "string option \<Rightarrow> string option \<Rightarrow> string option" where
  "str_or a b = (case a of None \<Rightarrow> b | Some s \<Rightarrow> if s = [] then b else Some s)"

text \<open>\<open>nodes.find((n) => n.id === i)\<close>.\<close>

definition find_node :: "string \<Rightarrow> CustomNode list \<Rightarrow> CustomNode option" where
  "find_node i ns = find (\<lambda>n. node_id n = i) ns"

text \<open>
  The expression
  \<open>[...state.history.slice(0, state.currentHistoryIndex + 1), { nodes, edges }].slice(-MAX_HISTORY)\<close>
  that every recording operation assigns to \<open>history\<close>.
\<close>

definition pushed_history :: "TeamBuilderState \<Rightarrow> CustomNode list \<Rightarrow> CustomEdge list \<Rightarrow> snapshot list" where
  "pushed_history s ns es =
     js_slice_last MAX_HISTORY
       (js_slice0 (history s) (currentHistoryIndex s + 1) @ [\<lparr>snap_nodes = ns, snap_edges = es\<rparr>])"

subsection \<open>Operations on the graph alone\<close>

definition addEdge :: "CustomEdge \<Rightarrow> TeamBuilderState \<Rightarrow> TeamBuilderState" where
  "addEdge edge s =
     s\<lparr>edges := edges s @ [edge],
       history := pushed_history s (nodes s) (edges s @ [edge]),
       currentHistoryIndex := currentHistoryIndex s + 1\<rparr>"

definition removeEdge :: "string \<Rightarrow> TeamBuilderState \<Rightarrow> TeamBuilderState" where
  "removeEdge edgeId s =
     s\<lparr>edges := filter (\<lambda>e. edge_id e \<noteq> edgeId) (edges s),
       history := pushed_history s (nodes s) (filter (\<lambda>e. edge_id e \<noteq> edgeId) (edges s)),
       currentHistoryIndex := currentHistoryIndex s + 1\<rparr>"

definition setSelectedNode :: "string option \<Rightarrow> TeamBuilderState \<Rightarrow> TeamBuilderState" where
  "setSelectedNode nodeId s = s\<lparr>selectedNodeId := nodeId\<rparr>"

text \<open>
  \<open>undo\<close> and \<open>redo\<close> read \<open>previousState.nodes\<close> of \<open>state.history[i]\<close>; when
  there is no entry at \<open>i\<close> that read throws a TypeError and the state is not
  set.
\<close>

definition undo :: "TeamBuilderState \<Rightarrow> error + TeamBuilderState" where
  "undo s =
     (if currentHistoryIndex s \<le> 0 then Inr s
      else case js_index (history s) (currentHistoryIndex s - 1) of
             None \<Rightarrow> Inl TypeError
           | Some previousState \<Rightarrow>
               Inr (s\<lparr>nodes := snap_nodes previousState, edges := snap_edges previousState,
                      currentHistoryIndex := currentHistoryIndex s - 1\<rparr>))"

definition redo :: "TeamBuilderState \<Rightarrow> error + TeamBuilderState" where
  "redo s =
     (if currentHistoryIndex s \<ge> int (length (history s)) - 1 then Inr s
      else case js_index (history s) (currentHistoryIndex s + 1) of
             None \<Rightarrow> Inl TypeError
           | Some nextState \<Rightarrow>
               Inr (s\<lparr>nodes := snap_nodes nextState, edges := snap_edges nextState,
                      currentHistoryIndex := currentHistoryIndex s + 1\<rparr>))"

definition resetHistory :: "TeamBuilderState \<Rightarrow> TeamBuilderState" where
  "resetHistory s =
     s\<lparr>history := [\<lparr>snap_nodes = nodes s, snap_edges = edges s\<rparr>],
       currentHistoryIndex := 0\<rparr>"

definition addToHistory :: "TeamBuilderState \<Rightarrow> TeamBuilderState" where
  "addToHistory s =
     s\<lparr>history := pushed_history s (nodes s) (edges s),
       currentHistoryIndex := currentHistoryIndex s + 1\<rparr>"

subsection \<open>Helpers of the repository that the store imports\<close>

text \<open>
  The type guards (\<open>types/guards\<close>), \<open>getUniqueName\<close>, \<open>updateNodeDimensions\<close>,
  \<open>getLayoutedElements\<close> and \<open>convertTeamConfigToGraph\<close> (\<open>./utils\<close>) are imported by
  the store; they are parameters of every operation that calls them.  A guard
  reads the component object it is given.  The layout helpers take and return
  nodes and edges; the optional fourth argument of \<open>getLayoutedElements\<close> is \<open>None\<close>
  when the call leaves it out.  \<open>isEqual\<close> is lodash's deep equality, applied
  to two component values (\<open>None\<close> for undefined) in a heap.
\<close>

record env =
  isTeamComponent :: "Component \<Rightarrow> bool"
  isAgentComponent :: "Component \<Rightarrow> bool"
  isToolComponent :: "Component \<Rightarrow> bool"
  isWorkbenchComponent :: "Component \<Rightarrow> bool"
  isTerminationComponent :: "Component \<Rightarrow> bool"
  isModelComponent :: "Component \<Rightarrow> bool"
  isSelectorTeam :: "Component \<Rightarrow> bool"
  isAssistantAgent :: "Component \<Rightarrow> bool"
  isWebSurferAgent :: "Component \<Rightarrow> bool"
  isStaticWorkbench :: "Component \<Rightarrow> bool"
  getUniqueName :: "string option \<Rightarrow> string option list \<Rightarrow> string"
  updateNodeDimensions ::
    "CustomNode list \<Rightarrow> CustomEdge list \<Rightarrow> CustomNode list \<times> CustomEdge list"
  getLayoutedElements ::
    "CustomNode list \<Rightarrow> CustomEdge list \<Rightarrow> string option \<Rightarrow> bool option
       \<Rightarrow> CustomNode list \<times> CustomEdge list"
  convertTeamConfigToGraph ::
    "heap \<Rightarrow> nat \<Rightarrow> string option \<Rightarrow> heap \<times> CustomNode list \<times> CustomEdge list"
  isEqual :: "heap \<Rightarrow> nat option \<Rightarrow> nat option \<Rightarrow> bool"

text \<open>\<open>node.data.component\<close>.\<close>

definition node_comp :: "CustomNode \<Rightarrow> nat" where
  "node_comp n = data_component (node_data n)"

text \<open>\<open>x || undefined\<close> and \<open>x || null\<close> on a string that may be null.\<close>

definition truthy_str :: "string option \<Rightarrow> string option" where
  "truthy_str x = str_or x None"

text \<open>
  The partial state \<open>{ nodes, edges, history: ..., currentHistoryIndex: ... }\<close>
  merged into the state by \<open>set\<close>.
\<close>

definition recorded :: "TeamBuilderState \<Rightarrow> CustomNode list \<Rightarrow> CustomEdge list \<Rightarrow> TeamBuilderState" where
  "recorded s ns es =
     s\<lparr>nodes := ns, edges := es, history := pushed_history s ns es,
       currentHistoryIndex := currentHistoryIndex s + 1\<rparr>"

subsection \<open>buildTeamComponent and syncToJson\<close>

definition participant_of :: "env \<Rightarrow> heap \<Rightarrow> CustomNode list \<Rightarrow> CustomEdge \<Rightarrow> nat option" where
  "participant_of E h ns edge =
     (case find_node (target edge) ns of
        None \<Rightarrow> None
      | Some agentNode \<Rightarrow>
          if isAgentComponent E (comps h (node_comp agentNode))
          then Some (node_comp agentNode) else None)"

definition edge_participants ::
  "env \<Rightarrow> heap \<Rightarrow> CustomNode \<Rightarrow> CustomNode list \<Rightarrow> CustomEdge list \<Rightarrow> nat option list" where
  "edge_participants E h teamNode ns es =
     filter (\<lambda>agent. agent \<noteq> None)
       (map (participant_of E h ns)
          (filter (\<lambda>e. source e = node_id teamNode \<and> edge_type e = Some ''agent-connection'') es))"

text \<open>
  \<open>{ ...teamNode.data.component }\<close> is a new component object with the same
  config object; the assignment to \<open>component.config.participants\<close> writes
  to that shared config.
\<close>

definition buildTeamComponent ::
  "env \<Rightarrow> CustomNode \<Rightarrow> CustomNode list \<Rightarrow> CustomEdge list \<Rightarrow> heap \<Rightarrow> nat option \<times> heap" where
  "buildTeamComponent E teamNode ns es h =
     (if \<not> isTeamComponent E (comps h (node_comp teamNode)) then (None, h)
      else
        case new_comp (comps h (node_comp teamNode)) h of (component, h1) \<Rightarrow>
        case new_arr (edge_participants E h1 teamNode ns es) h1 of (ps, h2) \<Rightarrow>
          (Some component,
           set_cfg (config (comps h2 component))
             ((cfg_of h2 component)\<lparr>participants := Some ps\<rparr>) h2))"

definition syncToJson :: "env \<Rightarrow> heap \<times> TeamBuilderState \<Rightarrow> nat option \<times> heap" where
  "syncToJson E w =
     (case w of (h, s) \<Rightarrow>
        case filter (\<lambda>node. component_type (comps h (node_comp node)) = ''team'') (nodes s) of
          [] \<Rightarrow> (None, h)
        | teamNode # _ \<Rightarrow> buildTeamComponent E teamNode (nodes s) (edges s) h)"

subsection \<open>addNode\<close>

definition normalizeWorkbenches :: "workbench_field \<Rightarrow> heap \<Rightarrow> nat \<times> heap" where
  "normalizeWorkbenches wb h =
     (case wb of
        WbUndefined \<Rightarrow> new_arr [] h
      | WbSingle c \<Rightarrow> new_arr [Some c] h
      | WbArray a \<Rightarrow> (a, h))"

text \<open>
  \<open>if (!config.workbench) config.workbench = []\<close> on the config object at \<open>g\<close>.
\<close>

definition ensure_workbench :: "nat \<Rightarrow> heap \<Rightarrow> heap" where
  "ensure_workbench g h =
     (if workbench (cfgs h g) = WbUndefined
      then case new_arr [] h of (a, h1) \<Rightarrow> set_cfg g ((cfgs h1 g)\<lparr>workbench := WbArray a\<rparr>) h1
      else h)"

text \<open>
  \<open>workbenches.findIndex((wb) => isStaticWorkbench(wb))\<close> followed by
  \<open>workbenches[staticWorkbenchIndex]\<close>: the first element the guard accepts.
  A guard handed an undefined element reads a field of undefined.
\<close>

fun find_static :: "env \<Rightarrow> heap \<Rightarrow> nat option list \<Rightarrow> error + nat option" where
  "find_static E h [] = Inr None"
| "find_static E h (None # wbs) = Inl TypeError"
| "find_static E h (Some wb # wbs) =
     (if isStaticWorkbench E (comps h wb) then Inr (Some wb) else find_static E h wbs)"

text \<open>\<open>tools.map((t) => t.config.name || t.label || "tool")\<close>.\<close>

fun tool_names :: "heap \<Rightarrow> nat option list \<Rightarrow> error + string option list" where
  "tool_names h [] = Inr []"
| "tool_names h (None # ts) = Inl TypeError"
| "tool_names h (Some t # ts) =
     (case tool_names h ts of
        Inl e \<Rightarrow> Inl e
      | Inr ns \<Rightarrow>
          Inr (str_or (name (cfg_of h t)) (str_or (label (comps h t)) (Some ''tool'')) # ns))"

text \<open>\<open>existingAgents.map((p) => p.config.name)\<close>.\<close>

fun agent_names :: "heap \<Rightarrow> nat option list \<Rightarrow> error + string option list" where
  "agent_names h [] = Inr []"
| "agent_names h (None # ps) = Inl TypeError"
| "agent_names h (Some p # ps) =
     (case agent_names h ps of
        Inl e \<Rightarrow> Inl e
      | Inr ns \<Rightarrow> Inr (name (cfg_of h p) # ns))"

text \<open>The \<open>StaticWorkbench\<close> component that the tool branch creates when the agent has none.\<close>

definition new_static_workbench :: "heap \<Rightarrow> nat \<times> heap" where
  "new_static_workbench h =
     (case new_arr [] h of (ta, h1) \<Rightarrow>
      case new_cfg \<lparr>name = None, model_client = None, workbench = WbUndefined,
                    participants = None, tools = Some ta, termination_condition = None,
                    other = []\<rparr> h1 of (g, h2) \<Rightarrow>
        new_comp \<lparr>provider = ''autogen_core.tools.StaticWorkbench'',
                  component_type = ''workbench'', version = 1, component_version = 1,
                  label = Some ''Static Workbench'',
                  description = Some ''A static workbench for managing custom tools'',
                  config = g\<rparr> h2)"

text \<open>
  The body of \<open>if (isStaticWorkbench(workbench)) { ... }\<close>: make sure the
  workbench config has a tools array, rename the clone, push it.
\<close>

definition push_tool :: "env \<Rightarrow> nat \<Rightarrow> nat \<Rightarrow> heap \<Rightarrow> error + heap" where
  "push_tool E clonedComponent wb h =
     (let g = config (comps h wb) in
      case (case tools (cfgs h g) of
              None \<Rightarrow> (case new_arr [] h of (a, h1) \<Rightarrow>
                         (a, set_cfg g ((cfgs h1 g)\<lparr>tools := Some a\<rparr>) h1))
            | Some a \<Rightarrow> (a, h)) of (ta, h2) \<Rightarrow>
      case tool_names h2 (arrs h2 ta) of
        Inl e \<Rightarrow> Inl e
      | Inr existing \<Rightarrow>
          let toolName =
                getUniqueName E
                  (str_or (name (cfg_of h2 clonedComponent))
                     (str_or (label (comps h2 clonedComponent)) (Some ''tool'')))
                  existing;
              h3 = set_cfg (config (comps h2 clonedComponent))
                     ((cfg_of h2 clonedComponent)\<lparr>name := Some toolName\<rparr>) h2
          in Inr (push_arr ta (Some clonedComponent) h3))"

definition addNode_tool :: "env \<Rightarrow> nat \<Rightarrow> CustomNode \<Rightarrow> heap \<Rightarrow> error + heap" where
  "addNode_tool E clonedComponent targetNode h =
     (let g = config (comps h (node_comp targetNode));
          h1 = ensure_workbench g h
      in case normalizeWorkbenches (workbench (cfgs h1 g)) h1 of (workbenches, h2) \<Rightarrow>
         case find_static E h2 (arrs h2 workbenches) of
           Inl e \<Rightarrow> Inl e
         | Inr found \<Rightarrow>
             (case (case found of
                      Some wb \<Rightarrow> (wb, h2)
                    | None \<Rightarrow>
                        (case new_static_workbench h2 of (newWorkbench, h3) \<Rightarrow>
                         case new_arr (arrs h3 workbenches @ [Some newWorkbench]) h3 of
                           (workbenches', h4) \<Rightarrow>
                             (newWorkbench,
                              set_cfg g ((cfgs h4 g)\<lparr>workbench := WbArray workbenches'\<rparr>) h4)))
              of (wb, h5) \<Rightarrow>
                if isStaticWorkbench E (comps h5 wb) then push_tool E clonedComponent wb h5
                else Inr h5))"

definition addNode_model :: "nat \<Rightarrow> CustomNode \<Rightarrow> heap \<Rightarrow> heap" where
  "addNode_model clonedComponent targetNode h =
     (let g = config (comps h (node_comp targetNode))
      in set_cfg g ((cfgs h g)\<lparr>model_client := Some clonedComponent\<rparr>) h)"

definition addNode_workbench :: "nat \<Rightarrow> CustomNode \<Rightarrow> heap \<Rightarrow> heap" where
  "addNode_workbench clonedComponent targetNode h =
     (let g = config (comps h (node_comp targetNode));
          h1 = ensure_workbench g h
      in case normalizeWorkbenches (workbench (cfgs h1 g)) h1 of (workbenches, h2) \<Rightarrow>
           let h3 = push_arr workbenches (Some clonedComponent) h2
           in set_cfg g ((cfgs h3 g)\<lparr>workbench := WbArray workbenches\<rparr>) h3)"

text \<open>
  The termination branch maps over the nodes and rebuilds each node whose id
  is the target's, with a new component object and a new config object.
\<close>

fun addNode_termination ::
  "nat \<Rightarrow> string \<Rightarrow> CustomNode list \<Rightarrow> heap \<Rightarrow> CustomNode list \<times> heap" where
  "addNode_termination clonedComponent targetNodeId [] h = ([], h)"
| "addNode_termination clonedComponent targetNodeId (node # rest) h =
     (if node_id node = targetNodeId then
        case new_cfg ((cfg_of h (node_comp node))\<lparr>termination_condition := Some clonedComponent\<rparr>) h
          of (g, h1) \<Rightarrow>
        case new_comp ((comps h1 (node_comp node))\<lparr>config := g\<rparr>) h1 of (c, h2) \<Rightarrow>
        case addNode_termination clonedComponent targetNodeId rest h2 of (rest', h3) \<Rightarrow>
          (node\<lparr>node_data := (node_data node)\<lparr>data_component := c\<rparr>\<rparr> # rest', h3)
      else
        case addNode_termination clonedComponent targetNodeId rest h of (rest', h3) \<Rightarrow>
          (node # rest', h3))"

text \<open>
  The part of \<open>addNode\<close> inside \<open>if (targetNodeId) { ... }\<close> once the target node
  is found.  \<open>None\<close>: no branch returned, control falls through to the code
  after the block.
\<close>

definition addNode_onTarget ::
  "env \<Rightarrow> nat \<Rightarrow> string \<Rightarrow> CustomNode \<Rightarrow> heap \<times> TeamBuilderState
     \<Rightarrow> (error + heap \<times> TeamBuilderState) option" where
  "addNode_onTarget E clonedComponent targetNodeId targetNode w =
     (case w of (h, s) \<Rightarrow>
       let tc = comps h (node_comp targetNode); cc = comps h clonedComponent in
       if isModelComponent E cc then
         (if isTeamComponent E tc \<and> isSelectorTeam E tc then
            Some (Inr (addNode_model clonedComponent targetNode h, recorded s (nodes s) (edges s)))
          else if isAgentComponent E tc \<and> (isAssistantAgent E tc \<or> isWebSurferAgent E tc) then
            Some (Inr (addNode_model clonedComponent targetNode h, recorded s (nodes s) (edges s)))
          else None)
       else if isToolComponent E cc then
         (if isAgentComponent E tc \<and> isAssistantAgent E tc then
            Some (case addNode_tool E clonedComponent targetNode h of
                    Inl e \<Rightarrow> Inl e
                  | Inr h1 \<Rightarrow> Inr (h1, recorded s (nodes s) (edges s)))
          else None)
       else if isTerminationComponent E cc then
         (if isTeamComponent E tc then
            Some (case addNode_termination clonedComponent targetNodeId (nodes s) h of
                    (newNodes, h1) \<Rightarrow> Inr (h1, recorded s newNodes (edges s)))
          else None)
       else if isWorkbenchComponent E cc then
         (if isAgentComponent E tc \<and> isAssistantAgent E tc then
            Some (Inr (addNode_workbench clonedComponent targetNode h,
                       recorded s (nodes s) (edges s)))
          else None)
       else None)"

definition new_node :: "string \<Rightarrow> Position \<Rightarrow> Component \<Rightarrow> string option \<Rightarrow> nat \<Rightarrow> CustomNode" where
  "new_node i position c lbl r =
     \<lparr>node_id = i, node_position = position, node_type = component_type c,
      node_data = \<lparr>data_label = lbl, data_component = r, data_type = component_type c\<rparr>\<rparr>"

text \<open>
  \<open>if (!participants) participants = []; participants.push(component)\<close> on the
  team component at \<open>team\<close>.
\<close>

definition push_participant :: "nat \<Rightarrow> nat \<Rightarrow> heap \<Rightarrow> heap" where
  "push_participant team component h =
     (let g = config (comps h team) in
      case (case participants (cfgs h g) of
              None \<Rightarrow> (case new_arr [] h of (a, h1) \<Rightarrow>
                         (a, set_cfg g ((cfgs h1 g)\<lparr>participants := Some a\<rparr>) h1))
            | Some a \<Rightarrow> (a, h)) of (pa, h2) \<Rightarrow>
        push_arr pa (Some component) h2)"

text \<open>
  The code after the target block (``Handle team and agent nodes''), on the
  copies \<open>newNodes\<close> and \<open>newEdges\<close>.  \<open>id1\<close> and \<open>id2\<close> are the values of the
  \<open>nanoid()\<close> calls, in the order they are made.
\<close>

definition addNode_new ::
  "env \<Rightarrow> Position \<Rightarrow> nat \<Rightarrow> string \<Rightarrow> string
     \<Rightarrow> heap \<times> CustomNode list \<times> CustomEdge list
     \<Rightarrow> error + heap \<times> CustomNode list \<times> CustomEdge list" where
  "addNode_new E position clonedComponent id1 id2 w =
     (case w of (h, newNodes, newEdges) \<Rightarrow>
       let cc = comps h clonedComponent in
       if isTeamComponent E cc then
         Inr (h, newNodes @ [new_node id1 position cc (str_or (label cc) (Some ''Team''))
                               clonedComponent], newEdges)
       else if isAgentComponent E cc then
         (case find (\<lambda>n. isTeamComponent E (comps h (node_comp n))) newNodes of
            None \<Rightarrow> Inr (h, newNodes, newEdges)
          | Some teamNode \<Rightarrow>
              (case (if isAssistantAgent E cc \<and> isTeamComponent E (comps h (node_comp teamNode))
                     then
                       (case agent_names h
                               (case participants (cfg_of h (node_comp teamNode)) of
                                  None \<Rightarrow> [] | Some pa \<Rightarrow> arrs h pa) of
                          Inl e \<Rightarrow> Inl e
                        | Inr existingNames \<Rightarrow>
                            Inr (set_cfg (config cc)
                                   ((cfg_of h clonedComponent)
                                      \<lparr>name := Some (getUniqueName E
                                                       (name (cfg_of h clonedComponent))
                                                       existingNames)\<rparr>) h))
                     else Inr h) of
                 Inl e \<Rightarrow> Inl e
               | Inr h1 \<Rightarrow>
                   let newNode = new_node id1 position cc
                                   (str_or (label cc) (name (cfg_of h1 clonedComponent)))
                                   clonedComponent;
                       newEdge = \<lparr>edge_id = id2, source = node_id teamNode, target = id1,
                                  sourceHandle = Some (node_id teamNode @ ''-agent-output-handle''),
                                  targetHandle = Some (id1 @ ''-agent-input-handle''),
                                  edge_type = Some ''agent-connection''\<rparr>;
                       h2 = (if isTeamComponent E (comps h1 (node_comp teamNode))
                             then push_participant (node_comp teamNode) clonedComponent h1
                             else h1)
                   in Inr (h2, newNodes @ [newNode], newEdges @ [newEdge])))
       else if isWorkbenchComponent E cc then
         Inr (h, newNodes @ [new_node id1 position cc (str_or (label cc) (Some ''Workbench''))
                               clonedComponent], newEdges)
       else Inr (h, newNodes, newEdges))"

definition addNode ::
  "env \<Rightarrow> Position \<Rightarrow> comp_json \<Rightarrow> string \<Rightarrow> string \<Rightarrow> string
     \<Rightarrow> heap \<times> TeamBuilderState \<Rightarrow> error + heap \<times> TeamBuilderState" where
  "addNode E position component targetNodeId id1 id2 w =
     (case w of (h0, s) \<Rightarrow>
      case alloc_comp component h0 of (clonedComponent, h) \<Rightarrow>
        if targetNodeId \<noteq> [] \<and> find_node targetNodeId (nodes s) = None then Inr (h, s)
        else
          case (if targetNodeId \<noteq> [] then
                  (case find_node targetNodeId (nodes s) of
                     None \<Rightarrow> None
                   | Some targetNode \<Rightarrow>
                       addNode_onTarget E clonedComponent targetNodeId targetNode (h, s))
                else None) of
            Some r \<Rightarrow> r
          | None \<Rightarrow>
              (case addNode_new E position clonedComponent id1 id2 (h, nodes s, edges s) of
                 Inl e \<Rightarrow> Inl e
               | Inr (h1, newNodes, newEdges) \<Rightarrow>
                   if targetNodeId \<noteq> [] then
                     (case updateNodeDimensions E newNodes newEdges of
                        (updatedNodes, updatedEdges) \<Rightarrow>
                          Inr (h1, recorded s updatedNodes updatedEdges))
                   else
                     (case getLayoutedElements E newNodes newEdges (truthy_str (teamId s)) None of
                        (layoutedNodes, layoutedEdges) \<Rightarrow>
                          Inr (h1, recorded s layoutedNodes layoutedEdges))))"

subsection \<open>updateNode\<close>

text \<open>
  One step of \<open>state.nodes.map\<close>.  For a team node with an agent-connection
  edge to the updated node, \<open>config.participants.map\<close> throws when the list is
  undefined; a participant is replaced by \<open>updates.component\<close> (which may be
  undefined) when it is \<open>===\<close> the component of the first node with the
  updated id.
\<close>

definition updateNode_one ::
  "env \<Rightarrow> TeamBuilderState \<Rightarrow> string \<Rightarrow> NodeUpdates \<Rightarrow> CustomNode \<Rightarrow> heap
     \<Rightarrow> error + CustomNode \<times> heap" where
  "updateNode_one E s nodeId updates node h =
     (if node_id node \<noteq> nodeId then
        (if isTeamComponent E (comps h (node_comp node)) \<and>
            list_ex (\<lambda>e. edge_type e = Some ''agent-connection'' \<and> target e = nodeId \<and>
                          source e = node_id node) (edges s) \<and>
            isTeamComponent E (comps h (node_comp node))
         then
           (case participants (cfg_of h (node_comp node)) of
              None \<Rightarrow> Inl TypeError
            | Some pa \<Rightarrow>
                case new_arr
                       (map (\<lambda>participant.
                               if participant = map_option node_comp (find_node nodeId (nodes s))
                               then upd_component updates else participant)
                          (arrs h pa)) h of (ps, h1) \<Rightarrow>
                case new_cfg ((cfg_of h1 (node_comp node))\<lparr>participants := Some ps\<rparr>) h1
                  of (g, h2) \<Rightarrow>
                case new_comp ((comps h2 (node_comp node))\<lparr>config := g\<rparr>) h2 of (c, h3) \<Rightarrow>
                  Inr (node\<lparr>node_data := (node_data node)\<lparr>data_component := c\<rparr>\<rparr>, h3))
         else Inr (node, h))
      else
        Inr (node\<lparr>node_data :=
                    (node_data node)
                      \<lparr>data_label := (case upd_label updates of
                                        None \<Rightarrow> data_label (node_data node)
                                      | Some l \<Rightarrow> Some l),
                       data_type := (case upd_type updates of
                                       None \<Rightarrow> data_type (node_data node)
                                     | Some ty \<Rightarrow> ty),
                       data_component := (case upd_component updates of
                                            None \<Rightarrow> node_comp node
                                          | Some c \<Rightarrow> c)\<rparr>\<rparr>, h))"

fun updateNode_map ::
  "env \<Rightarrow> TeamBuilderState \<Rightarrow> string \<Rightarrow> NodeUpdates \<Rightarrow> CustomNode list \<Rightarrow> heap
     \<Rightarrow> error + CustomNode list \<times> heap" where
  "updateNode_map E s nodeId updates [] h = Inr ([], h)"
| "updateNode_map E s nodeId updates (node # rest) h =
     (case updateNode_one E s nodeId updates node h of
        Inl e \<Rightarrow> Inl e
      | Inr (node', h1) \<Rightarrow>
          (case updateNode_map E s nodeId updates rest h1 of
             Inl e \<Rightarrow> Inl e
           | Inr (rest', h2) \<Rightarrow> Inr (node' # rest', h2)))"

definition updateNode ::
  "env \<Rightarrow> string \<Rightarrow> NodeUpdates \<Rightarrow> heap \<times> TeamBuilderState \<Rightarrow> error + heap \<times> TeamBuilderState" where
  "updateNode E nodeId updates w =
     (case w of (h, s) \<Rightarrow>
        case updateNode_map E s nodeId updates (nodes s) h of
          Inl e \<Rightarrow> Inl e
        | Inr (newNodes, h1) \<Rightarrow>
            Inr (h1, s\<lparr>nodes := newNodes,
                       history := pushed_history s newNodes (edges s),
                       currentHistoryIndex := currentHistoryIndex s + 1\<rparr>))"

subsection \<open>removeNode\<close>

text \<open>\<open>xs.forEach(f)\<close> where \<open>f\<close> updates the accumulated state and may throw.\<close>

primrec forEach :: "('a \<Rightarrow> 'b \<Rightarrow> error + 'b) \<Rightarrow> 'a list \<Rightarrow> 'b \<Rightarrow> error + 'b" where
  "forEach f [] acc = Inr acc"
| "forEach f (x # xs) acc = (case f x acc of Inl e \<Rightarrow> Inl e | Inr acc' \<Rightarrow> forEach f xs acc')"

text \<open>
  \<open>{ ...teamNode, data: { ..., component: { ..., config: { ..., participants:
  participants.filter((p) => !isEqual(p, node.data.component)) } } } }\<close>;
  \<open>participants.filter\<close> throws when the list is undefined.
\<close>

definition without_participant ::
  "env \<Rightarrow> CustomNode \<Rightarrow> CustomNode \<Rightarrow> heap \<Rightarrow> error + CustomNode \<times> heap" where
  "without_participant E teamNode node h =
     (case participants (cfg_of h (node_comp teamNode)) of
        None \<Rightarrow> Inl TypeError
      | Some pa \<Rightarrow>
          case new_arr (filter (\<lambda>p. \<not> isEqual E h p (Some (node_comp node))) (arrs h pa)) h
            of (ps, h1) \<Rightarrow>
          case new_cfg ((cfg_of h1 (node_comp teamNode))\<lparr>participants := Some ps\<rparr>) h1
            of (g, h2) \<Rightarrow>
          case new_comp ((comps h2 (node_comp teamNode))\<lparr>config := g\<rparr>) h2 of (c, h3) \<Rightarrow>
            Inr (teamNode\<lparr>node_data := (node_data teamNode)\<lparr>data_component := c\<rparr>\<rparr>, h3))"

text \<open>
  \<open>collectNodesToRemove\<close> calls itself for the target of every agent-connection
  edge at a team node, with no record of the nodes already visited.  The
  first argument bounds the depth of the calls: the call stack of the engine.
  A recursion deeper than that ends in a RangeError.  The accumulated state is
  the heap, the set \<open>nodesToRemove\<close> and the map \<open>updatedNodes\<close>.
\<close>

fun collectNodesToRemove ::
  "nat \<Rightarrow> env \<Rightarrow> CustomNode list \<Rightarrow> CustomEdge list \<Rightarrow> string
     \<Rightarrow> heap \<times> string set \<times> (string \<rightharpoonup> CustomNode)
     \<Rightarrow> error + heap \<times> string set \<times> (string \<rightharpoonup> CustomNode)" where
  "collectNodesToRemove 0 E ns es i acc = Inl RangeError"
| "collectNodesToRemove (Suc depth) E ns es i acc =
     (case acc of (h, nodesToRemove, updatedNodes) \<Rightarrow>
      case find_node i ns of
        None \<Rightarrow> Inr acc
      | Some node \<Rightarrow>
          let connectedEdges = filter (\<lambda>edge. source edge = i \<or> target edge = i) es in
          if isTeamComponent E (comps h (node_comp node)) then
            forEach (\<lambda>e. collectNodesToRemove depth E ns es (target e))
              (filter (\<lambda>e. edge_type e = Some ''agent-connection'') connectedEdges)
              (h, insert i nodesToRemove, updatedNodes)
          else if isAgentComponent E (comps h (node_comp node)) then
            (case find (\<lambda>e. edge_type e = Some ''agent-connection'') connectedEdges of
               None \<Rightarrow> Inr (h, insert i nodesToRemove, updatedNodes)
             | Some teamEdge \<Rightarrow>
                 (case find_node (source teamEdge) ns of
                    None \<Rightarrow> Inr (h, insert i nodesToRemove, updatedNodes)
                  | Some teamNode \<Rightarrow>
                      if isTeamComponent E (comps h (node_comp teamNode)) then
                        (case without_participant E teamNode node h of
                           Inl e \<Rightarrow> Inl e
                         | Inr (updatedTeamNode, h1) \<Rightarrow>
                             Inr (h1, insert i nodesToRemove,
                                  updatedNodes(node_id teamNode \<mapsto> updatedTeamNode)))
                      else Inr (h, insert i nodesToRemove, updatedNodes)))
          else Inr (h, insert i nodesToRemove, updatedNodes))"

declare collectNodesToRemove.simps [simp del]

definition removeNode ::
  "nat \<Rightarrow> env \<Rightarrow> string \<Rightarrow> heap \<times> TeamBuilderState \<Rightarrow> error + heap \<times> TeamBuilderState" where
  "removeNode depth E nodeId w =
     (case w of (h, s) \<Rightarrow>
        case collectNodesToRemove depth E (nodes s) (edges s) nodeId (h, {}, Map.empty) of
          Inl e \<Rightarrow> Inl e
        | Inr (h1, nodesToRemove, updatedNodes) \<Rightarrow>
            let newNodes =
                  map (\<lambda>node. case updatedNodes (node_id node) of
                                 None \<Rightarrow> node | Some node' \<Rightarrow> node')
                    (filter (\<lambda>node. node_id node \<notin> nodesToRemove) (nodes s));
                newEdges =
                  filter (\<lambda>edge. source edge \<notin> nodesToRemove \<and> target edge \<notin> nodesToRemove)
                    (edges s)
            in Inr (h1, recorded s newNodes newEdges))"

subsection \<open>layoutNodes and loadFromJson\<close>

definition layoutNodes :: "env \<Rightarrow> TeamBuilderState \<Rightarrow> TeamBuilderState" where
  "layoutNodes E s =
     (case getLayoutedElements E (nodes s) (edges s) (truthy_str (teamId s)) (Some False) of
        (layoutedNodes, layoutedEdges) \<Rightarrow> recorded s layoutedNodes layoutedEdges)"

text \<open>\<open>isEqual\<close> on two node arrays: the same length and equal nodes, position by position.\<close>

definition isEqual_node :: "env \<Rightarrow> heap \<Rightarrow> CustomNode \<Rightarrow> CustomNode \<Rightarrow> bool" where
  "isEqual_node E h n m =
     (node_id n = node_id m \<and> node_position n = node_position m \<and> node_type n = node_type m \<and>
      data_label (node_data n) = data_label (node_data m) \<and>
      data_type (node_data n) = data_type (node_data m) \<and>
      isEqual E h (Some (node_comp n)) (Some (node_comp m)))"

text \<open>
  \<open>loadFromJson\<close> returns the graph it computed, next to the new heap and state.
  \<open>isInitialLoad\<close> is the argument after the default \<open>true\<close> is applied.
\<close>

definition loadFromJson ::
  "env \<Rightarrow> nat \<Rightarrow> bool \<Rightarrow> string option \<Rightarrow> heap \<times> TeamBuilderState
     \<Rightarrow> snapshot \<times> heap \<times> TeamBuilderState" where
  "loadFromJson E cfg isInitialLoad tid w =
     (case w of (h, s) \<Rightarrow>
      case convertTeamConfigToGraph E h cfg tid of (h1, ns, es) \<Rightarrow>
      case getLayoutedElements E ns es tid None of (layoutedNodes, layoutedEdges) \<Rightarrow>
        (\<lparr>snap_nodes = layoutedNodes, snap_edges = layoutedEdges\<rparr>, h1,
         if isInitialLoad then
           s\<lparr>nodes := layoutedNodes, edges := layoutedEdges,
             originalComponent := Some cfg, teamId := truthy_str tid,
             history := [\<lparr>snap_nodes = layoutedNodes, snap_edges = layoutedEdges\<rparr>],
             currentHistoryIndex := 0, selectedNodeId := None\<rparr>
         else if \<not> list_all2 (isEqual_node E h1) layoutedNodes (nodes s) \<or>
                 layoutedEdges \<noteq> edges s then
           s\<lparr>nodes := layoutedNodes, edges := layoutedEdges,
             teamId := (if truthy_str tid = None then teamId s else tid),
             history := pushed_history s layoutedNodes layoutedEdges,
             currentHistoryIndex := currentHistoryIndex s + 1\<rparr>
         else s))"

subsection \<open>Sequences of calls\<close>

text \<open>
  The states the store can be in: the initial state, and the state after any
  public operation that returns.  Each call may meet other guards and layout
  results than the one before.  Code outside the store holds references to
  the same component objects and may allocate or write between two calls,
  and a call that throws may have written to the heap before it threw, so
  the heap under a reachable store state is arbitrary.
  \<open>setNodeUserPositioned\<close>, and the call of \<open>clearUserPositionedFlags\<close> in
  \<open>layoutNodes\<close>, only reach the layout storage (\<open>./layout-storage\<close>) and set
  nothing in the store, so they have no rule here.
\<close>

inductive reachable :: "heap \<times> TeamBuilderState \<Rightarrow> bool" where
  r_init: "reachable (h, initial_state)"
| r_heap: "reachable (h, s) \<Longrightarrow> reachable (h', s)"
| r_addNode:
    "reachable w \<Longrightarrow> addNode E position component targetNodeId id1 id2 w = Inr w'
       \<Longrightarrow> reachable w'"
| r_updateNode: "reachable w \<Longrightarrow> updateNode E nodeId updates w = Inr w' \<Longrightarrow> reachable w'"
| r_removeNode: "reachable w \<Longrightarrow> removeNode depth E nodeId w = Inr w' \<Longrightarrow> reachable w'"
| r_addEdge: "reachable (h, s) \<Longrightarrow> reachable (h, addEdge edge s)"
| r_removeEdge: "reachable (h, s) \<Longrightarrow> reachable (h, removeEdge edgeId s)"
| r_setSelectedNode: "reachable (h, s) \<Longrightarrow> reachable (h, setSelectedNode nodeId s)"
| r_undo: "reachable (h, s) \<Longrightarrow> undo s = Inr s' \<Longrightarrow> reachable (h, s')"
| r_redo: "reachable (h, s) \<Longrightarrow> redo s = Inr s' \<Longrightarrow> reachable (h, s')"
| r_syncToJson: "reachable (h, s) \<Longrightarrow> syncToJson E (h, s) = (r, h') \<Longrightarrow> reachable (h', s)"
| r_layoutNodes: "reachable (h, s) \<Longrightarrow> reachable (h, layoutNodes E s)"
| r_loadFromJson:
    "reachable w \<Longrightarrow> loadFromJson E cfg isInitialLoad tid w = (g, h', s') \<Longrightarrow> reachable (h', s')"
| r_resetHistory: "reachable (h, s) \<Longrightarrow> reachable (h, resetHistory s)"
| r_addToHistory: "reachable (h, s) \<Longrightarrow> reachable (h, addToHistory s)"

text \<open>What every recording operation does to the history, from state \<open>s\<close> to \<open>s'\<close>.\<close>

definition records_snapshot :: "TeamBuilderState \<Rightarrow> TeamBuilderState \<Rightarrow> bool" where
  "records_snapshot s s' =
     (history s' =
        js_slice_last MAX_HISTORY
          (js_slice0 (history s) (currentHistoryIndex s + 1) @
             [\<lparr>snap_nodes = nodes s', snap_edges = edges s'\<rparr>]) \<and>
      currentHistoryIndex s' = currentHistoryIndex s + 1)"

text \<open>\<open>n\<close> calls of \<open>addToHistory\<close> in a row.\<close>

definition addToHistory_times :: "nat \<Rightarrow> TeamBuilderState \<Rightarrow> TeamBuilderState" where
  "addToHistory_times n s = (addToHistory ^^ n) s"

subsection \<open>A concrete environment\<close>

text \<open>
  Deep equality of two component values in a heap, field by field.  The first
  argument bounds the nesting depth that is followed.
\<close>

fun deep_equal_comp :: "nat \<Rightarrow> heap \<Rightarrow> nat \<Rightarrow> nat \<Rightarrow> bool"
and deep_equal_opt :: "nat \<Rightarrow> heap \<Rightarrow> nat option \<Rightarrow> nat option \<Rightarrow> bool"
and deep_equal_elems :: "nat \<Rightarrow> heap \<Rightarrow> nat option list \<Rightarrow> nat option list \<Rightarrow> bool"
where
  "deep_equal_comp 0 h a b = (a = b)"
| "deep_equal_comp (Suc k) h a b =
     (a = b \<or>
      (provider (comps h a) = provider (comps h b) \<and>
       component_type (comps h a) = component_type (comps h b) \<and>
       version (comps h a) = version (comps h b) \<and>
       component_version (comps h a) = component_version (comps h b) \<and>
       label (comps h a) = label (comps h b) \<and>
       description (comps h a) = description (comps h b) \<and>
       name (cfg_of h a) = name (cfg_of h b) \<and>
       other (cfg_of h a) = other (cfg_of h b) \<and>
       deep_equal_opt k h (model_client (cfg_of h a)) (model_client (cfg_of h b)) \<and>
       deep_equal_opt k h (termination_condition (cfg_of h a))
         (termination_condition (cfg_of h b)) \<and>
       (case (workbench (cfg_of h a), workbench (cfg_of h b)) of
          (WbUndefined, WbUndefined) \<Rightarrow> True
        | (WbSingle x, WbSingle y) \<Rightarrow> deep_equal_opt k h (Some x) (Some y)
        | (WbArray x, WbArray y) \<Rightarrow> deep_equal_elems k h (arrs h x) (arrs h y)
        | _ \<Rightarrow> False) \<and>
       (case (participants (cfg_of h a), participants (cfg_of h b)) of
          (None, None) \<Rightarrow> True
        | (Some x, Some y) \<Rightarrow> deep_equal_elems k h (arrs h x) (arrs h y)
        | _ \<Rightarrow> False) \<and>
       (case (tools (cfg_of h a), tools (cfg_of h b)) of
          (None, None) \<Rightarrow> True
        | (Some x, Some y) \<Rightarrow> deep_equal_elems k h (arrs h x) (arrs h y)
        | _ \<Rightarrow> False)))"
| "deep_equal_opt k h None None = True"
| "deep_equal_opt k h (Some a) (Some b) = deep_equal_comp k h a b"
| "deep_equal_opt k h _ _ = False"
| "deep_equal_elems k h [] [] = True"
| "deep_equal_elems k h (x # xs) (y # ys) = (deep_equal_opt k h x y \<and> deep_equal_elems k h xs ys)"
| "deep_equal_elems k h _ _ = False"

text \<open>
  A name not among \<open>existing\<close>: the base name, or the base name followed by
  the fewest underscores that make it new.
\<close>

definition fresh_name :: "string option \<Rightarrow> string option list \<Rightarrow> string" where
  "fresh_name base existing =
     (let b = (case base of None \<Rightarrow> [] | Some s \<Rightarrow> s) in
      case find (\<lambda>c. Some c \<notin> set existing)
             (map (\<lambda>k. b @ replicate k (CHR ''_'')) [0..<Suc (length existing)]) of
        None \<Rightarrow> b
      | Some c \<Rightarrow> c)"

text \<open>
  The environment used to run the operations on examples.  Each guard tests
  the \<open>component_type\<close> or the \<open>provider\<close> that its name says; the layout helpers
  return the graph as it is; the conversion of a configuration returns the
  empty graph (the conversion with nodes and edges is \<open>demo_load_env\<close> below);
  deep equality follows at most as many levels as there are component objects.
\<close>

definition demo_env :: env where
  "demo_env =
     \<lparr>isTeamComponent = (\<lambda>c. component_type c = ''team''),
      isAgentComponent = (\<lambda>c. component_type c = ''agent''),
      isToolComponent = (\<lambda>c. component_type c = ''tool''),
      isWorkbenchComponent = (\<lambda>c. component_type c = ''workbench''),
      isTerminationComponent = (\<lambda>c. component_type c = ''termination''),
      isModelComponent = (\<lambda>c. component_type c = ''model''),
      isSelectorTeam = (\<lambda>c. provider c = ''autogen_agentchat.teams.SelectorGroupChat''),
      isAssistantAgent = (\<lambda>c. provider c = ''autogen_agentchat.agents.AssistantAgent''),
      isWebSurferAgent =
        (\<lambda>c. provider c = ''autogen_ext.agents.web_surfer.MultimodalWebSurfer''),
      isStaticWorkbench = (\<lambda>c. provider c = ''autogen_core.tools.StaticWorkbench''),
      getUniqueName = fresh_name,
      updateNodeDimensions = (\<lambda>ns es. (ns, es)),
      getLayoutedElements = (\<lambda>ns es tid keep. (ns, es)),
      convertTeamConfigToGraph = (\<lambda>h c tid. (h, [], [])),
      isEqual = (\<lambda>h a b. deep_equal_opt (next_comp h) h a b)\<rparr>"

text \<open>JSON values for the examples.\<close>

definition empty_cfg_json :: "string option \<Rightarrow> cfg_json" where
  "empty_cfg_json n = CfgJ n None WbJUndefined None None None []"

definition team_json :: comp_json where
  "team_json =
     CompJ ''autogen_agentchat.teams.RoundRobinGroupChat'' ''team'' 1 1 (Some ''Team'') None
       (CfgJ None None WbJUndefined (Some []) None None [])"

definition agent_json :: comp_json where
  "agent_json =
     CompJ ''autogen_agentchat.agents.AssistantAgent'' ''agent'' 1 1 None None
       (empty_cfg_json (Some ''assistant''))"

definition model_json :: comp_json where
  "model_json =
     CompJ ''autogen_ext.models.openai.OpenAIChatCompletionClient'' ''model'' 1 1 None None
       (empty_cfg_json None)"

definition tool_json :: comp_json where
  "tool_json =
     CompJ ''autogen_core.tools.FunctionTool'' ''tool'' 1 1 None None
       (empty_cfg_json (Some ''calc''))"

definition workbench_json :: comp_json where
  "workbench_json =
     CompJ ''autogen_ext.tools.mcp.McpWorkbench'' ''workbench'' 1 1 None None
       (empty_cfg_json None)"

definition origin :: Position where
  "origin = \<lparr>pos_x = 0, pos_y = 0\<rparr>"

text \<open>
  The store after a team and then an assistant agent were dropped on the
  empty canvas and the history was reset: a team node, an agent node, the edge
  between them, and the agent in the team's participant list.
\<close>

definition demo_heap :: heap where
  "demo_heap =
     \<lparr>comps = (comps empty_heap)
        (0 := \<lparr>provider = ''autogen_agentchat.teams.RoundRobinGroupChat'',
                component_type = ''team'', version = 1, component_version = 1,
                label = Some ''Team'', description = None, config = 0\<rparr>,
         1 := \<lparr>provider = ''autogen_agentchat.agents.AssistantAgent'',
                component_type = ''agent'', version = 1, component_version = 1,
                label = None, description = None, config = 1\<rparr>),
      cfgs = (cfgs empty_heap)
        (0 := \<lparr>name = None, model_client = None, workbench = WbUndefined,
                participants = Some 0, tools = None, termination_condition = None,
                other = []\<rparr>,
         1 := \<lparr>name = Some ''assistant'', model_client = None, workbench = WbUndefined,
                participants = None, tools = None, termination_condition = None,
                other = []\<rparr>),
      arrs = (arrs empty_heap)(0 := [Some 1]),
      next_comp = 2, next_cfg = 2, next_arr = 1\<rparr>"

definition demo_nodes :: "CustomNode list" where
  "demo_nodes =
     [\<lparr>node_id = ''t'', node_position = origin, node_type = ''team'',
       node_data = \<lparr>data_label = Some ''Team'', data_component = 0, data_type = ''team''\<rparr>\<rparr>,
      \<lparr>node_id = ''a'', node_position = origin, node_type = ''agent'',
       node_data = \<lparr>data_label = Some ''assistant'', data_component = 1,
                    data_type = ''agent''\<rparr>\<rparr>]"

definition demo_edges :: "CustomEdge list" where
  "demo_edges =
     [\<lparr>edge_id = ''e'', source = ''t'', target = ''a'',
       sourceHandle = Some ''t-agent-output-handle'',
       targetHandle = Some ''a-agent-input-handle'',
       edge_type = Some ''agent-connection''\<rparr>]"

definition demo_state :: TeamBuilderState where
  "demo_state =
     \<lparr>nodes = demo_nodes, edges = demo_edges, selectedNodeId = None,
      history = [\<lparr>snap_nodes = demo_nodes, snap_edges = demo_edges\<rparr>],
      currentHistoryIndex = 0, originalComponent = None, teamId = None\<rparr>"

text \<open>An agent-connection edge from the team node to a node \<open>w\<close>.\<close>

definition stray_edge :: CustomEdge where
  "stray_edge =
     \<lparr>edge_id = ''f'', source = ''t'', target = ''w'', sourceHandle = None,
      targetHandle = None, edge_type = Some ''agent-connection''\<rparr>"

definition rename_only :: NodeUpdates where
  "rename_only = \<lparr>upd_label = Some ''helper'', upd_component = None, upd_type = None\<rparr>"

text \<open>
  The entries that a recording step keeps before it appends: those up to and
  including the entry at the current index.  The entries after it, the redo
  tail, are discarded.
\<close>

definition kept_entries :: "TeamBuilderState \<Rightarrow> snapshot list" where
  "kept_entries s = take (nat (currentHistoryIndex s + 1)) (history s)"


text \<open>\<open>kept\<close> is the most recent \<open>n\<close> of \<open>entries\<close>, or all of them when there are fewer.\<close>

definition most_recent :: "nat \<Rightarrow> 'a list \<Rightarrow> 'a list \<Rightarrow> bool" where
  "most_recent n entries kept =
     (length kept = min n (length entries) \<and>
      kept = drop (length entries - length kept) entries)"

text \<open>
  The history after a recording step from \<open>s\<close> to \<open>s'\<close> holds the most recent
  entries, at most \<open>MAX_HISTORY\<close> of them, of the kept entries followed by the
  new snapshot.
\<close>

definition keeps_most_recent :: "TeamBuilderState \<Rightarrow> TeamBuilderState \<Rightarrow> bool" where
  "keeps_most_recent s s' =
     most_recent MAX_HISTORY
       (kept_entries s @ [\<lparr>snap_nodes = nodes s', snap_edges = edges s'\<rparr>]) (history s')"


text \<open>
  The example store after an edge was added, removed again, and the removal
  undone: three history entries, the index at the second, one entry to redo.
\<close>

definition redo_state :: TeamBuilderState where
  "redo_state =
     \<lparr>nodes = demo_nodes, edges = demo_edges @ [stray_edge], selectedNodeId = None,
      history = [\<lparr>snap_nodes = demo_nodes, snap_edges = demo_edges\<rparr>,
                 \<lparr>snap_nodes = demo_nodes, snap_edges = demo_edges @ [stray_edge]\<rparr>,
                 \<lparr>snap_nodes = demo_nodes, snap_edges = demo_edges\<rparr>],
      currentHistoryIndex = 1, originalComponent = None, teamId = None\<rparr>"

text \<open>The example store after 49 more snapshots: the history is full.\<close>

definition full_state :: TeamBuilderState where
  "full_state = addToHistory_times 49 demo_state"

subsection \<open>Reading the heap\<close>

text \<open>The participant list of the component at \<open>c\<close>: \<open>None\<close> when the field is undefined.\<close>

definition participant_list :: "heap \<Rightarrow> nat \<Rightarrow> nat option list option" where
  "participant_list h c = map_option (arrs h) (participants (cfg_of h c))"

text \<open>
  The participants of the team node with id \<open>t\<close> as the graph gives them: the
  agent components targeted by the agent-connection edges with source \<open>t\<close>,
  in edge order, skipping an edge whose target node is missing or is not an
  agent.
\<close>

fun team_agents :: "env \<Rightarrow> heap \<Rightarrow> string \<Rightarrow> CustomNode list \<Rightarrow> CustomEdge list \<Rightarrow> nat list" where
  "team_agents E h t ns [] = []"
| "team_agents E h t ns (e # es) =
     (if source e = t \<and> edge_type e = Some ''agent-connection'' then
        (case find_node (target e) ns of
           None \<Rightarrow> team_agents E h t ns es
         | Some n \<Rightarrow>
             if isAgentComponent E (comps h (node_comp n))
             then node_comp n # team_agents E h t ns es
             else team_agents E h t ns es)
      else team_agents E h t ns es)"

text \<open>Every object allocated in \<open>h\<close> is allocated in \<open>h'\<close> and is the same there.\<close>

definition heap_extends :: "heap \<Rightarrow> heap \<Rightarrow> bool" where
  "heap_extends h h' =
     (next_comp h \<le> next_comp h' \<and> next_cfg h \<le> next_cfg h' \<and> next_arr h \<le> next_arr h' \<and>
      (\<forall>c. c < next_comp h \<longrightarrow> comps h' c = comps h c) \<and>
      (\<forall>g. g < next_cfg h \<longrightarrow> cfgs h' g = cfgs h g) \<and>
      (\<forall>a. a < next_arr h \<longrightarrow> arrs h' a = arrs h a))"

subsection \<open>Shapes of graphs and heaps\<close>

text \<open>
  The ids removed with the team node \<open>t\<close>: \<open>t\<close> itself and the target of every
  agent-connection edge with source \<open>t\<close> whose target is a node of the graph.
\<close>

definition cascade_ids :: "string \<Rightarrow> CustomNode list \<Rightarrow> CustomEdge list \<Rightarrow> string set" where
  "cascade_ids t ns es =
     insert t
       (set (map target
          (filter (\<lambda>e. source e = t \<and> edge_type e = Some ''agent-connection'' \<and>
                        find_node (target e) ns \<noteq> None) es)))"

text \<open>
  Every agent-connection edge that touches \<open>t\<close> has as target an agent node
  that is not a team node, or no node at all.
\<close>

definition team_edges_lead_to_agents ::
  "env \<Rightarrow> heap \<Rightarrow> string \<Rightarrow> CustomNode list \<Rightarrow> CustomEdge list \<Rightarrow> bool" where
  "team_edges_lead_to_agents E h t ns es =
     list_all
       (\<lambda>e. case find_node (target e) ns of
               None \<Rightarrow> True
             | Some n \<Rightarrow> isAgentComponent E (comps h (node_comp n)) \<and>
                         \<not> isTeamComponent E (comps h (node_comp n)))
       (filter (\<lambda>e. edge_type e = Some ''agent-connection'' \<and> (source e = t \<or> target e = t)) es)"

text \<open>The component of every node, and its config, are allocated objects.\<close>

definition nodes_allocated :: "heap \<Rightarrow> CustomNode list \<Rightarrow> bool" where
  "nodes_allocated h ns =
     list_all (\<lambda>n. node_comp n < next_comp h \<and> config (comps h (node_comp n)) < next_cfg h) ns"

text \<open>Every team node has a participant list, as the type \<open>TeamConfig\<close> requires.\<close>

definition teams_have_participants :: "env \<Rightarrow> heap \<Rightarrow> CustomNode list \<Rightarrow> bool" where
  "teams_have_participants E h ns =
     list_all
       (\<lambda>n. if isTeamComponent E (comps h (node_comp n))
             then participants (cfg_of h (node_comp n)) \<noteq> None else True) ns"

text \<open>Every node stored in the map \<open>updatedNodes\<close> is stored under its own id.\<close>

definition keys_match :: "(string \<rightharpoonup> CustomNode) \<Rightarrow> bool" where
  "keys_match upd = (\<forall>k n. upd k = Some n \<longrightarrow> node_id n = k)"

text \<open>The target of edge \<open>e\<close> is an agent node that is not a team node, or no node.\<close>

definition targets_agent :: "env \<Rightarrow> heap \<Rightarrow> CustomNode list \<Rightarrow> CustomEdge \<Rightarrow> bool" where
  "targets_agent E h ns e =
     (case find_node (target e) ns of
        None \<Rightarrow> True
      | Some n \<Rightarrow> isAgentComponent E (comps h (node_comp n)) \<and>
                  \<not> isTeamComponent E (comps h (node_comp n)))"

text \<open>
  The current nodes and edges of \<open>s\<close> are the history entry at the current
  index, and one more entry fits below \<open>MAX_HISTORY\<close>.
\<close>

definition at_snapshot :: "TeamBuilderState \<Rightarrow> bool" where
  "at_snapshot s =
     (js_index (history s) (currentHistoryIndex s) =
        Some \<lparr>snap_nodes = nodes s, snap_edges = edges s\<rparr> \<and>
      currentHistoryIndex s + 1 < int MAX_HISTORY)"

text \<open>
  undo in state \<open>s'\<close> returns, and gives back the nodes, the edges and the
  index of \<open>s\<close>.
\<close>

definition undo_restores :: "TeamBuilderState \<Rightarrow> TeamBuilderState \<Rightarrow> bool" where
  "undo_restores s s' =
     (case undo s' of
        Inl e \<Rightarrow> False
      | Inr s'' \<Rightarrow> nodes s'' = nodes s \<and> edges s'' = edges s \<and>
                   currentHistoryIndex s'' = currentHistoryIndex s)"

subsection \<open>Workbenches and tools of an agent\<close>

text \<open>
  The workbenches of the config object at \<open>g\<close>, as \<open>normalizeWorkbenches\<close> lists
  them, and the tools of the workbench component at \<open>wb\<close>.
\<close>

definition workbench_list :: "heap \<Rightarrow> nat \<Rightarrow> nat option list" where
  "workbench_list h g =
     (case workbench (cfgs h g) of
        WbUndefined \<Rightarrow> []
      | WbSingle c \<Rightarrow> [Some c]
      | WbArray a \<Rightarrow> arrs h a)"

definition tool_list :: "heap \<Rightarrow> nat \<Rightarrow> nat option list" where
  "tool_list h wb = (case tools (cfg_of h wb) of None \<Rightarrow> [] | Some a \<Rightarrow> arrs h a)"

text \<open>The name a tool goes by: \<open>t.config.name || t.label || "tool"\<close>.\<close>

definition tool_name :: "heap \<Rightarrow> nat option \<Rightarrow> string option" where
  "tool_name h t =
     (case t of
        None \<Rightarrow> None
      | Some c \<Rightarrow> str_or (name (cfg_of h c)) (str_or (label (comps h c)) (Some ''tool'')))"

text \<open>The same name read off the JSON value of a component.\<close>

fun json_tool_name :: "comp_json \<Rightarrow> string option" where
  "json_tool_name (CompJ p ct v cv l d (CfgJ n mc wb ps ts tc ot)) =
     str_or n (str_or l (Some ''tool''))"





text \<open>The component object that \<open>new_static_workbench\<close> builds, with its config at \<open>g\<close>.\<close>

definition static_workbench_component :: "nat \<Rightarrow> Component" where
  "static_workbench_component g =
     \<lparr>provider = ''autogen_core.tools.StaticWorkbench'', component_type = ''workbench'',
      version = 1, component_version = 1, label = Some ''Static Workbench'',
      description = Some ''A static workbench for managing custom tools'', config = g\<rparr>"

text \<open>
  What the tool branch of \<open>addNode\<close> leaves behind, in terms of its own search
  \<open>find_static\<close>.  \<open>g\<close> is the config object of the target agent, \<open>cc\<close> the
  clone of the tool, \<open>h\<close> the heap before the drop and \<open>h'\<close> the heap after it.
\<close>

definition tool_added :: "env \<Rightarrow> comp_json \<Rightarrow> heap \<Rightarrow> nat \<Rightarrow> nat \<Rightarrow> heap \<Rightarrow> bool" where
  "tool_added E component h g cc h' =
     (case find_static E h (workbench_list h g) of
        Inl e \<Rightarrow> False
      | Inr (Some wb) \<Rightarrow>
          workbench_list h' g = workbench_list h g \<and>
          isStaticWorkbench E (comps h' wb) \<and>
          tool_list h' wb = tool_list h wb @ [Some cc] \<and>
          name (cfg_of h' cc) =
            Some (getUniqueName E (json_tool_name component)
                    (map (tool_name h) (tool_list h wb)))
      | Inr None \<Rightarrow>
          (case rev (workbench_list h' g) of
             [] \<Rightarrow> False
           | None # _ \<Rightarrow> False
           | Some wb # before \<Rightarrow>
               (case workbench (cfgs h' g) of WbArray a \<Rightarrow> True | _ \<Rightarrow> False) \<and>
               rev before = workbench_list h g \<and>
               next_comp h \<le> wb \<and>
               comps h' wb = static_workbench_component (config (comps h' wb)) \<and>
               isStaticWorkbench E (comps h' wb) \<and>
               tool_list h' wb = [Some cc] \<and>
               name (cfg_of h' cc) = Some (getUniqueName E (json_tool_name component) [])))"




text \<open>
  The example store after a workbench and then a tool were dropped on its
  agent: the agent has the dropped workbench (component 2) and a
  StaticWorkbench (component 4) whose one tool (component 3) is named
  \<open>calc\<close>.
\<close>

definition tools_heap :: heap where
  "tools_heap =
     \<lparr>comps = (comps demo_heap)
        (2 := \<lparr>provider = ''autogen_ext.tools.mcp.McpWorkbench'', component_type = ''workbench'',
                version = 1, component_version = 1, label = None, description = None,
                config = 2\<rparr>,
         3 := \<lparr>provider = ''autogen_core.tools.FunctionTool'', component_type = ''tool'',
                version = 1, component_version = 1, label = None, description = None,
                config = 3\<rparr>,
         4 := static_workbench_component 4),
      cfgs = (cfgs demo_heap)
        (1 := \<lparr>name = Some ''assistant'', model_client = None, workbench = WbArray 3,
                participants = None, tools = None, termination_condition = None,
                other = []\<rparr>,
         2 := \<lparr>name = None, model_client = None, workbench = WbUndefined,
                participants = None, tools = None, termination_condition = None,
                other = []\<rparr>,
         3 := \<lparr>name = Some ''calc'', model_client = None, workbench = WbUndefined,
                participants = None, tools = None, termination_condition = None,
                other = []\<rparr>,
         4 := \<lparr>name = None, model_client = None, workbench = WbUndefined,
                participants = None, tools = Some 2, termination_condition = None,
                other = []\<rparr>),
      arrs = (arrs demo_heap)(1 := [Some 2], 2 := [Some 3], 3 := [Some 2, Some 4]),
      next_comp = 5, next_cfg = 5, next_arr = 4\<rparr>"



subsection \<open>Participants and edges\<close>

text \<open>
  The participant list of the team node is the list of agent components that
  its agent-connection edges give.
\<close>

definition participants_mirror_edges ::
  "env \<Rightarrow> heap \<Rightarrow> TeamBuilderState \<Rightarrow> CustomNode \<Rightarrow> bool" where
  "participants_mirror_edges E h s teamNode =
     (participant_list h (node_comp teamNode) =
        Some (map Some (team_agents E h (node_id teamNode) (nodes s) (edges s))))"

text \<open>
  A graph returned by a layout helper is the graph it was given: the same
  nodes in the same order, up to position and type, and the same edges.
\<close>

definition same_graph ::
  "CustomNode list \<times> CustomEdge list \<Rightarrow> CustomNode list \<Rightarrow> CustomEdge list \<Rightarrow> bool" where
  "same_graph g ns es =
     (map node_id (fst g) = map node_id ns \<and> map node_data (fst g) = map node_data ns \<and>
      snd g = es)"

text \<open>
  Modelled from the spec: \<open>getLayoutedElements\<close> and \<open>updateNodeDimensions\<close>
  are defined in \<open>./utils\<close>, outside \<open>store.tsx\<close>.  They lay out the graph the
  user manipulates: the nodes keep their ids and their data, the edges stay.
\<close>

definition layout_keeps_graph :: "env \<Rightarrow> bool" where
  "layout_keeps_graph E =
     ((\<forall>ns es tid keep. same_graph (getLayoutedElements E ns es tid keep) ns es) \<and>
      (\<forall>ns es. same_graph (updateNodeDimensions E ns es) ns es))"

text \<open>The first node the team guard accepts: \<open>newNodes.find((n) => isTeamComponent(...))\<close>.\<close>

definition first_team :: "env \<Rightarrow> heap \<Rightarrow> CustomNode list \<Rightarrow> CustomNode option" where
  "first_team E h ns = find (\<lambda>n. isTeamComponent E (comps h (node_comp n))) ns"

text \<open>The edge that addNode pushes for a new agent node \<open>tgt\<close> of the team node \<open>src\<close>.\<close>

definition agent_edge :: "string \<Rightarrow> string \<Rightarrow> string \<Rightarrow> CustomEdge" where
  "agent_edge i src tgt =
     \<lparr>edge_id = i, source = src, target = tgt,
      sourceHandle = Some (src @ ''-agent-output-handle''),
      targetHandle = Some (tgt @ ''-agent-input-handle''),
      edge_type = Some ''agent-connection''\<rparr>"

subsection \<open>From a team configuration to a graph\<close>

text \<open>
  Modelled from the spec: \<open>convertTeamConfigToGraph\<close> is defined in \<open>./utils\<close>,
  outside \<open>store.tsx\<close>.  The spec has the graph ``synchronized bidirectionally with a
  structured JSON configuration describing a multi-agent system (teams,
  agents, ...)'', graph-to-JSON and JSON-to-graph being inverse to each other
  on the team and its participants.  The model: one node for the team
  component and, for each participant in order, one node for the participant
  and one agent-connection edge from the team node to it.  The nodes hold the
  component objects of the configuration.  \<open>ids k\<close> is the value of the \<open>k\<close>-th
  call of \<open>nanoid()\<close>.
\<close>

fun participant_graph ::
  "(nat \<Rightarrow> string) \<Rightarrow> heap \<Rightarrow> string \<Rightarrow> nat \<Rightarrow> nat option list
     \<Rightarrow> CustomNode list \<times> CustomEdge list" where
  "participant_graph ids h team k [] = ([], [])"
| "participant_graph ids h team k (None # ps) = participant_graph ids h team k ps"
| "participant_graph ids h team k (Some p # ps) =
     (case participant_graph ids h team (k + 2) ps of
        (ns, es) \<Rightarrow>
          (new_node (ids k) origin (comps h p) (str_or (label (comps h p)) (name (cfg_of h p))) p
             # ns,
           agent_edge (ids (k + 1)) team (ids k) # es))"

definition convertTeamConfigToGraph_spec ::
  "(nat \<Rightarrow> string) \<Rightarrow> heap \<Rightarrow> nat \<Rightarrow> string option
     \<Rightarrow> heap \<times> CustomNode list \<times> CustomEdge list" where
  "convertTeamConfigToGraph_spec ids h c tid =
     (case participant_graph ids h (ids 0) 1
             (case participants (cfg_of h c) of None \<Rightarrow> [] | Some pa \<Rightarrow> arrs h pa) of
        (ns, es) \<Rightarrow>
          (h, new_node (ids 0) origin (comps h c) (str_or (label (comps h c)) (Some ''Team'')) c
                # ns, es))"

text \<open>Ids for the examples, and the example environment with the conversion above.\<close>

definition demo_ids :: "nat \<Rightarrow> string" where
  "demo_ids k = replicate (Suc k) (CHR ''n'')"

definition demo_load_env :: env where
  "demo_load_env = demo_env\<lparr>convertTeamConfigToGraph := convertTeamConfigToGraph_spec demo_ids\<rparr>"

text \<open>
  The example store after a second assistant agent was dropped on the canvas
  and the edge to the first one was removed: the team's participant list
  still holds both agents, the edges lead to the second one only.
\<close>

definition stale_world :: "heap \<times> TeamBuilderState" where
  "stale_world =
     (case addNode demo_env origin agent_json [] ''b'' ''g'' (demo_heap, demo_state) of
        Inr (h, s) \<Rightarrow> (h, removeEdge ''e'' s)
      | Inl e \<Rightarrow> (demo_heap, demo_state))"

section \<open>Properties\<close>

subsection \<open>Evaluation on the examples\<close>

lemmas heap_defs =
  new_comp_def new_cfg_def new_arr_def set_cfg_def push_arr_def cfg_of_def empty_heap_def

lemmas demo_defs =
  demo_env_def team_json_def agent_json_def model_json_def tool_json_def workbench_json_def
  empty_cfg_json_def origin_def fresh_name_def demo_heap_def demo_state_def demo_nodes_def
  demo_edges_def rename_only_def

lemmas history_defs =
  recorded_def pushed_history_def js_slice0_def js_slice_last_def js_index_def MAX_HISTORY_def
  initial_state_def

lemmas addNode_defs =
  addNode_def addNode_new_def addNode_onTarget_def new_node_def push_participant_def
  find_node_def node_comp_def str_or_def truthy_str_def

text \<open>The example store is what the operations themselves build.\<close>

lemma demo_world_built:
  "\<exists>h s. addNode demo_env origin team_json [] ''t'' [] (empty_heap, initial_state) = Inr (h, s) \<and>
     (\<exists>h' s'. addNode demo_env origin agent_json [] ''a'' ''e'' (h, s) = Inr (h', s') \<and>
        h' = demo_heap \<and> resetHistory s' = demo_state)"
  by (simp add: heap_defs demo_defs history_defs addNode_defs resetHistory_def)

lemma demo_world_reachable: "reachable (demo_heap, demo_state)"
proof -
  obtain h s h' s' where
    a: "addNode demo_env origin team_json [] ''t'' [] (empty_heap, initial_state) = Inr (h, s)" and
    b: "addNode demo_env origin agent_json [] ''a'' ''e'' (h, s) = Inr (h', s')" and
    c: "h' = demo_heap" "resetHistory s' = demo_state"
    using demo_world_built by blast
  have "reachable (h, s)"
    using reachable.r_addNode [OF reachable.r_init a] .
  then have "reachable (h', s')"
    using b by (rule reachable.r_addNode)
  then have "reachable (h', resetHistory s')"
    by (rule reachable.r_resetHistory)
  then show ?thesis
    by (simp add: c)
qed

subsection \<open>History bookkeeping\<close>

lemma length_pushed_history: "length (pushed_history s ns es) \<le> MAX_HISTORY"
  by (simp add: pushed_history_def js_slice_last_def)

lemma one_le_MAX_HISTORY: "Suc 0 \<le> MAX_HISTORY"
  by (simp add: MAX_HISTORY_def)

lemma rec_addEdge: "records_snapshot s (addEdge e s)"
  by (simp add: records_snapshot_def addEdge_def pushed_history_def)

lemma rec_removeEdge: "records_snapshot s (removeEdge e s)"
  by (simp add: records_snapshot_def removeEdge_def pushed_history_def)

lemma rec_addToHistory: "records_snapshot s (addToHistory s)"
  by (simp add: records_snapshot_def addToHistory_def pushed_history_def)

lemma rec_recorded: "records_snapshot s (recorded s ns es)"
  by (simp add: records_snapshot_def recorded_def pushed_history_def)

lemma rec_layoutNodes: "records_snapshot s (layoutNodes E s)"
  by (simp add: layoutNodes_def rec_recorded split: prod.splits)

lemma rec_updateNode: "updateNode E i u (h, s) = Inr (h', s') \<Longrightarrow> records_snapshot s s'"
  by (auto simp: updateNode_def records_snapshot_def pushed_history_def
      split: sum.splits prod.splits)

lemma rec_removeNode: "removeNode d E i (h, s) = Inr (h', s') \<Longrightarrow> records_snapshot s s'"
  by (auto simp: removeNode_def rec_recorded Let_def split: sum.splits prod.splits)

lemma rec_onTarget:
  "addNode_onTarget E cc t tn (h, s) = Some (Inr (h', s')) \<Longrightarrow> records_snapshot s s'"
  by (auto simp: addNode_onTarget_def rec_recorded Let_def
      split: if_splits sum.splits prod.splits)

lemma rec_addNode:
  "addNode E p c t i1 i2 (h, s) = Inr (h', s') \<Longrightarrow>
     (t \<noteq> [] \<and> find_node t (nodes s) = None \<and> s' = s) \<or> records_snapshot s s'"
  by (auto simp: addNode_def rec_recorded rec_onTarget
      split: if_splits sum.splits prod.splits option.splits)

lemma hist_undo: "undo s = Inr s' \<Longrightarrow> history s' = history s"
  by (auto simp: undo_def split: if_splits option.splits)

lemma hist_redo: "redo s = Inr s' \<Longrightarrow> history s' = history s"
  by (auto simp: redo_def split: if_splits option.splits)

lemma rec_length: "records_snapshot s s' \<Longrightarrow> length (history s') \<le> MAX_HISTORY"
  by (simp add: records_snapshot_def js_slice_last_def)

lemma kept_slice:
  "- 1 \<le> currentHistoryIndex s \<Longrightarrow> js_slice0 (history s) (currentHistoryIndex s + 1) = kept_entries s"
  by (simp add: js_slice0_def kept_entries_def)

lemma most_recent_last: "most_recent n xs (js_slice_last n xs)"
  by (auto simp: most_recent_def js_slice_last_def)


lemma rec_keeps:
  "- 1 \<le> currentHistoryIndex s \<Longrightarrow> records_snapshot s s' \<Longrightarrow> keeps_most_recent s s'"
  by (simp add: records_snapshot_def keeps_most_recent_def kept_slice most_recent_last)



text \<open>Evaluations shared by the examples below.\<close>

lemma demo_addNode_returns:
  "\<exists>h' s'. addNode demo_env origin agent_json [] ''b'' ''f'' (demo_heap, demo_state) = Inr (h', s')"
  by (simp add: heap_defs demo_defs history_defs addNode_defs)

lemma demo_updateNode_returns:
  "\<exists>h' s'. updateNode demo_env ''a'' rename_only (demo_heap, demo_state) = Inr (h', s')"
  by (simp add: heap_defs demo_defs history_defs updateNode_def updateNode_one_def
      find_node_def node_comp_def)

lemma demo_removeNode_returns:
  "\<exists>h' s'. removeNode 2 demo_env ''t'' (demo_heap, demo_state) = Inr (h', s')"
  by (simp add: heap_defs demo_defs history_defs removeNode_def without_participant_def
      collectNodesToRemove.simps find_node_def node_comp_def numeral_2_eq_2)

subsection \<open>Many snapshots in a row\<close>

lemma times_Suc: "addToHistory_times (Suc n) s = addToHistory (addToHistory_times n s)"
  by (simp add: addToHistory_times_def)

lemma times_index:
  "currentHistoryIndex (addToHistory_times n s) = currentHistoryIndex s + int n"
  by (induction n) (simp_all add: addToHistory_times_def addToHistory_def)

lemma initial_index: "currentHistoryIndex initial_state = - 1"
  by (simp add: initial_state_def)

lemma times_length: "length (history (addToHistory_times n initial_state)) = min n MAX_HISTORY"
proof (induction n)
  case 0
  then show ?case
    by (simp add: addToHistory_times_def initial_state_def)
next
  case (Suc n)
  have i: "currentHistoryIndex (addToHistory_times n initial_state) = int n - 1"
    by (simp add: times_index initial_index)
  show ?case
    using Suc
    by (simp add: times_Suc addToHistory_def pushed_history_def js_slice0_def
        js_slice_last_def i MAX_HISTORY_def min_def)
qed

lemma times_reachable: "reachable (h, addToHistory_times n initial_state)"
  by (induction n)
    (simp_all add: times_Suc addToHistory_times_def reachable.r_init reachable.r_addToHistory)

subsection \<open>What a recording operation does to the history\<close>

text \<open>The state with an entry to redo is what the operations build.\<close>

lemma redo_state_built:
  "undo (removeEdge ''f'' (addEdge stray_edge demo_state)) = Inr redo_state"
  by (simp add: undo_def removeEdge_def addEdge_def redo_state_def stray_edge_def demo_defs
      history_defs)












text \<open>
  C6.  The claim: in every reachable state with a non-empty history,
  \<open>0 \<le> currentHistoryIndex < history.length\<close>, also after more than 50
  recorded snapshots.  The code: after 51 calls of addToHistory from the
  initial state the history was cut to 50 entries while the index went on to
  50, one past the last entry.
\<close>

theorem index_past_history_after_51_snapshots:
  "reachable (h, addToHistory_times 51 initial_state) \<and>
   history (addToHistory_times 51 initial_state) \<noteq> [] \<and>
   currentHistoryIndex (addToHistory_times 51 initial_state) = 50 \<and>
   length (history (addToHistory_times 51 initial_state)) = 50"
proof -
  have l: "length (history (addToHistory_times 51 initial_state)) = 50"
    by (simp add: times_length MAX_HISTORY_def)
  then have "history (addToHistory_times 51 initial_state) \<noteq> []"
    by auto
  then show ?thesis
    using l by (simp add: times_reachable times_index initial_index)
qed

subsection \<open>undo and redo\<close>

text \<open>What undo and redo do wherever the snapshot they read exists.\<close>

lemma undo_cases:
  "undo s =
     (if currentHistoryIndex s \<le> 0 then Inr s
      else if currentHistoryIndex s - 1 < int (length (history s)) then
        Inr (s\<lparr>nodes := snap_nodes (history s ! nat (currentHistoryIndex s - 1)),
               edges := snap_edges (history s ! nat (currentHistoryIndex s - 1)),
               currentHistoryIndex := currentHistoryIndex s - 1\<rparr>)
      else Inl TypeError)"
  by (simp add: undo_def js_index_def)

lemma redo_cases:
  "- 1 \<le> currentHistoryIndex s \<Longrightarrow>
   redo s =
     (if currentHistoryIndex s \<ge> int (length (history s)) - 1 then Inr s
      else
        Inr (s\<lparr>nodes := snap_nodes (history s ! nat (currentHistoryIndex s + 1)),
               edges := snap_edges (history s ! nat (currentHistoryIndex s + 1)),
               currentHistoryIndex := currentHistoryIndex s + 1\<rparr>))"
  by (simp add: redo_def js_index_def)

text \<open>
  C7.  The claim: undo, when \<open>currentHistoryIndex > 0\<close>, sets nodes and edges
  to the snapshot at \<open>currentHistoryIndex - 1\<close> and decrements the index.  The
  code: after 52 calls of addToHistory from the initial state the index is 51
  and the history has 50 entries, so \<open>state.history[50]\<close> is undefined and undo
  throws a TypeError on \<open>previousState.nodes\<close>; nothing is set.
\<close>

theorem undo_throws_after_52_snapshots:
  "currentHistoryIndex (addToHistory_times 52 initial_state) = 51 \<and>
   length (history (addToHistory_times 52 initial_state)) = 50 \<and>
   undo (addToHistory_times 52 initial_state) = Inl TypeError"
  by (simp add: undo_def js_index_def times_index times_length initial_index MAX_HISTORY_def)

subsection \<open>The bound on the history\<close>

lemma load_initial:
  "loadFromJson E cfg True tid w = (g, h', s') \<Longrightarrow>
     history s' = [\<lparr>snap_nodes = nodes s', snap_edges = edges s'\<rparr>] \<and>
     currentHistoryIndex s' = 0"
  by (auto simp: loadFromJson_def split: prod.splits)

lemma load_length:
  "loadFromJson E cfg b tid (h, s) = (g, h', s') \<Longrightarrow> length (history s) \<le> MAX_HISTORY
     \<Longrightarrow> length (history s') \<le> MAX_HISTORY"
  by (auto simp: loadFromJson_def length_pushed_history one_le_MAX_HISTORY
      split: prod.splits if_splits)

lemma reachable_history_bound: "reachable w \<Longrightarrow> length (history (snd w)) \<le> MAX_HISTORY"
proof (induction rule: reachable.induct)
  case (r_init h)
  then show ?case
    by (simp add: initial_state_def)
next
  case (r_addNode w E position component targetNodeId id1 id2 w')
  then show ?case
    using rec_addNode [of E position component targetNodeId id1 id2 "fst w" "snd w" "fst w'" "snd w'"]
      rec_length by auto
next
  case (r_updateNode w E nodeId updates w')
  then show ?case
    using rec_updateNode [of E nodeId updates "fst w" "snd w" "fst w'" "snd w'"] rec_length
    by auto
next
  case (r_removeNode w depth E nodeId w')
  then show ?case
    using rec_removeNode [of depth E nodeId "fst w" "snd w" "fst w'" "snd w'"] rec_length
    by auto
next
  case (r_loadFromJson w E cfg isInitialLoad tid g h' s')
  then show ?case
    using load_length [of E cfg isInitialLoad tid "fst w" "snd w" g h' s'] by auto
qed (auto simp: rec_length [OF rec_addEdge] rec_length [OF rec_removeEdge]
      rec_length [OF rec_layoutNodes] rec_length [OF rec_addToHistory]
      setSelectedNode_def resetHistory_def one_le_MAX_HISTORY dest: hist_undo hist_redo)

lemma load_records:
  "loadFromJson E cfg False tid (h, s) = (g, h', s') \<Longrightarrow> s' = s \<or> records_snapshot s s'"
  by (auto simp: loadFromJson_def records_snapshot_def pushed_history_def
      split: prod.splits if_splits)


lemma reachable_index_lower: "reachable w \<Longrightarrow> - 1 \<le> currentHistoryIndex (snd w)"
proof (induction rule: reachable.induct)
  case (r_init h)
  then show ?case
    by (simp add: initial_state_def)
next
  case (r_addNode w E position component targetNodeId id1 id2 w')
  then show ?case
    using rec_addNode [of E position component targetNodeId id1 id2 "fst w" "snd w" "fst w'" "snd w'"]
    by (auto simp: records_snapshot_def)
next
  case (r_updateNode w E nodeId updates w')
  then show ?case
    using rec_updateNode [of E nodeId updates "fst w" "snd w" "fst w'" "snd w'"]
    by (auto simp: records_snapshot_def)
next
  case (r_removeNode w depth E nodeId w')
  then show ?case
    using rec_removeNode [of depth E nodeId "fst w" "snd w" "fst w'" "snd w'"]
    by (auto simp: records_snapshot_def)
next
  case (r_loadFromJson w E cfg isInitialLoad tid g h' s')
  then show ?case
    by (auto simp: loadFromJson_def split: prod.splits if_splits)
next
  case (r_undo h s s')
  then show ?case
    by (auto simp: undo_def split: if_splits option.splits)
next
  case (r_redo h s s')
  then show ?case
    by (auto simp: redo_def split: if_splits option.splits)
qed (auto simp: addEdge_def removeEdge_def setSelectedNode_def layoutNodes_def recorded_def
      resetHistory_def addToHistory_def split: prod.splits)

text \<open>The example store with a full history, and the operations run on it.\<close>

lemma times_nodes:
  "nodes (addToHistory_times n s) = nodes s" "edges (addToHistory_times n s) = edges s"
  "teamId (addToHistory_times n s) = teamId s"
  by (induction n) (simp_all add: addToHistory_times_def addToHistory_def)

lemma addToHistory_length:
  "- 1 \<le> currentHistoryIndex s \<Longrightarrow>
   length (history (addToHistory s)) =
     min MAX_HISTORY (Suc (min (nat (currentHistoryIndex s + 1)) (length (history s))))"
  unfolding addToHistory_def pushed_history_def js_slice0_def js_slice_last_def MAX_HISTORY_def
  by (simp add: min_def)

lemma times_length_from:
  assumes "int (length (history s)) = currentHistoryIndex s + 1" and "length (history s) \<le> MAX_HISTORY"
  shows "length (history (addToHistory_times n s)) = min (length (history s) + n) MAX_HISTORY"
proof (induction n)
  case 0
  then show ?case
    using assms by (simp add: addToHistory_times_def)
next
  case (Suc n)
  let ?t = "addToHistory_times n s"
  have i: "currentHistoryIndex ?t = int (length (history s) + n) - 1"
    using assms(1) by (simp add: times_index)
  then have "- 1 \<le> currentHistoryIndex ?t"
    by simp
  from addToHistory_length [OF this]
  have "length (history (addToHistory ?t)) =
      min MAX_HISTORY (Suc (min (length (history s) + n) (length (history ?t))))"
    unfolding i by simp
  then show ?case
    unfolding times_Suc Suc by (simp add: min_def)
qed

lemma times_reachable_from: "reachable (h, s) \<Longrightarrow> reachable (h, addToHistory_times n s)"
  by (induction n) (simp_all add: times_Suc addToHistory_times_def reachable.r_addToHistory)

lemma full_state_facts:
  "nodes full_state = demo_nodes" "edges full_state = demo_edges" "teamId full_state = None"
  "currentHistoryIndex full_state = 49" "length (history full_state) = 50"
  "reachable (demo_heap, full_state)"
proof -
  show "nodes full_state = demo_nodes" "edges full_state = demo_edges" "teamId full_state = None"
    by (simp_all add: full_state_def times_nodes demo_state_def)
  show "currentHistoryIndex full_state = 49"
    by (simp add: full_state_def times_index demo_state_def)
  have "int (length (history demo_state)) = currentHistoryIndex demo_state + 1"
    by (simp add: demo_state_def)
  moreover have "length (history demo_state) \<le> MAX_HISTORY"
    by (simp add: demo_state_def MAX_HISTORY_def)
  ultimately have "length (history (addToHistory_times 49 demo_state)) =
      min (length (history demo_state) + 49) MAX_HISTORY"
    by (rule times_length_from)
  then
  show "length (history full_state) = 50"
    by (simp add: full_state_def demo_state_def MAX_HISTORY_def)
  show "reachable (demo_heap, full_state)"
    unfolding full_state_def by (rule times_reachable_from [OF demo_world_reachable])
qed

lemma keeps_at_cap:
  assumes k: "keeps_most_recent s s'" and l: "length (kept_entries s) = MAX_HISTORY"
  shows "history s' = tl (kept_entries s) @ [\<lparr>snap_nodes = nodes s', snap_edges = edges s'\<rparr>] \<and>
     length (history s') = MAX_HISTORY"
proof -
  let ?e = "kept_entries s @ [\<lparr>snap_nodes = nodes s', snap_edges = edges s'\<rparr>]"
  have len: "length (history s') = MAX_HISTORY"
    using k l by (simp add: keeps_most_recent_def most_recent_def)
  have "history s' = drop (length ?e - length (history s')) ?e"
    using k unfolding keeps_most_recent_def most_recent_def by blast
  then have "history s' = drop 1 ?e"
    unfolding len using l by simp
  moreover obtain x xs where "kept_entries s = x # xs"
    using l by (cases "kept_entries s") (auto simp: MAX_HISTORY_def)
  ultimately show ?thesis
    using len by simp
qed

lemma full_addNode_returns:
  "\<exists>h' s'. addNode demo_load_env origin agent_json [] ''b'' ''g'' (demo_heap, full_state) = Inr (h', s')"
  by (simp add: demo_load_env_def heap_defs demo_env_def team_json_def agent_json_def
      empty_cfg_json_def origin_def fresh_name_def demo_heap_def demo_nodes_def demo_edges_def
      addNode_defs full_state_facts)

lemma full_updateNode_returns:
  "\<exists>h' s'. updateNode demo_load_env ''a'' rename_only (demo_heap, full_state) = Inr (h', s')"
  by (simp add: demo_load_env_def heap_defs demo_env_def demo_heap_def demo_nodes_def
      demo_edges_def rename_only_def updateNode_def updateNode_one_def
      find_node_def node_comp_def full_state_facts)

lemma full_removeNode_returns:
  "\<exists>h' s'. removeNode 2 demo_load_env ''t'' (demo_heap, full_state) = Inr (h', s')"
  by (simp add: demo_load_env_def heap_defs demo_env_def demo_heap_def demo_nodes_def
      demo_edges_def removeNode_def without_participant_def
      collectNodesToRemove.simps find_node_def node_comp_def numeral_2_eq_2 full_state_facts)

lemma full_load_initial_returns:
  "\<exists>g h' s'. loadFromJson demo_load_env 0 True None (demo_heap, full_state) = (g, h', s') \<and>
     length (nodes s') = 2 \<and> length (edges s') = 1"
  by (simp add: loadFromJson_def demo_load_env_def demo_env_def convertTeamConfigToGraph_spec_def
      heap_defs demo_heap_def split_beta)

lemma full_load_edit_returns:
  "\<exists>g h' s'. loadFromJson demo_load_env 0 False None (demo_heap, full_state) = (g, h', s') \<and>
     length (nodes s') = 2 \<and> s' \<noteq> full_state"
proof -
  have "\<exists>g h' s'. loadFromJson demo_load_env 0 False None (demo_heap, full_state) = (g, h', s') \<and>
     length (nodes s') = 2 \<and> currentHistoryIndex s' = 50"
    by (simp add: loadFromJson_def demo_load_env_def demo_env_def convertTeamConfigToGraph_spec_def
        heap_defs demo_heap_def split_beta isEqual_node_def new_node_def demo_ids_def
        full_state_facts demo_nodes_def)
  then show ?thesis
    using full_state_facts(4) by fastforce
qed


text \<open>
  C10.  In every reachable state the history holds at most \<open>MAX_HISTORY = 50\<close>
  snapshots, and every operation that records a snapshot there (addNode,
  updateNode, removeNode, addEdge, removeEdge, layoutNodes, addToHistory, and
  loadFromJson with \<open>isInitialLoad = false\<close> when the graph changed) keeps the
  most recent entries, at most 50, of the entries up to the current index
  followed by the new snapshot.  loadFromJson with \<open>isInitialLoad = true\<close> and
  resetHistory each leave exactly one snapshot, of the current nodes and
  edges, and index 0.
\<close>

theorem history_holds_at_most_50:
  "MAX_HISTORY = 50 \<and>
   (reachable (h, s) \<longrightarrow>
      length (history s) \<le> MAX_HISTORY \<and>
      (\<forall>h' s'. addNode E position component targetNodeId id1 id2 (h, s) = Inr (h', s') \<longrightarrow>
          s' = s \<or> keeps_most_recent s s') \<and>
      (\<forall>h' s'. updateNode E nodeId updates (h, s) = Inr (h', s') \<longrightarrow> keeps_most_recent s s') \<and>
      (\<forall>h' s'. removeNode depth E removedId (h, s) = Inr (h', s') \<longrightarrow> keeps_most_recent s s') \<and>
      keeps_most_recent s (addEdge edge s) \<and>
      keeps_most_recent s (removeEdge edgeId s) \<and>
      keeps_most_recent s (layoutNodes E s) \<and>
      keeps_most_recent s (addToHistory s) \<and>
      (\<forall>g h' s'. loadFromJson E cfg False tid (h, s) = (g, h', s') \<longrightarrow>
          s' = s \<or> keeps_most_recent s s')) \<and>
   (\<forall>g h' s'. loadFromJson E cfg True tid (h, s) = (g, h', s') \<longrightarrow>
       history s' = [\<lparr>snap_nodes = nodes s', snap_edges = edges s'\<rparr>] \<and>
       currentHistoryIndex s' = 0) \<and>
   history (resetHistory s) = [\<lparr>snap_nodes = nodes s, snap_edges = edges s\<rparr>] \<and>
   nodes (resetHistory s) = nodes s \<and> edges (resetHistory s) = edges s \<and>
   currentHistoryIndex (resetHistory s) = 0"
proof -
  have "reachable (h, s) \<longrightarrow>
      length (history s) \<le> MAX_HISTORY \<and>
      (\<forall>h' s'. addNode E position component targetNodeId id1 id2 (h, s) = Inr (h', s') \<longrightarrow>
          s' = s \<or> keeps_most_recent s s') \<and>
      (\<forall>h' s'. updateNode E nodeId updates (h, s) = Inr (h', s') \<longrightarrow> keeps_most_recent s s') \<and>
      (\<forall>h' s'. removeNode depth E removedId (h, s) = Inr (h', s') \<longrightarrow> keeps_most_recent s s') \<and>
      keeps_most_recent s (addEdge edge s) \<and>
      keeps_most_recent s (removeEdge edgeId s) \<and>
      keeps_most_recent s (layoutNodes E s) \<and>
      keeps_most_recent s (addToHistory s) \<and>
      (\<forall>g h' s'. loadFromJson E cfg False tid (h, s) = (g, h', s') \<longrightarrow>
          s' = s \<or> keeps_most_recent s s')"
  proof
    assume r: "reachable (h, s)"
    have i: "- 1 \<le> currentHistoryIndex s"
      using reachable_index_lower [OF r] by simp
    note k = rec_keeps [OF i]
    have "length (history s) \<le> MAX_HISTORY"
      using reachable_history_bound [OF r] by simp
    moreover have "\<forall>h' s'. addNode E position component targetNodeId id1 id2 (h, s) = Inr (h', s')
        \<longrightarrow> s' = s \<or> keeps_most_recent s s'"
      using rec_addNode [of E position component targetNodeId id1 id2 h s] k by blast
    moreover have "\<forall>h' s'. updateNode E nodeId updates (h, s) = Inr (h', s')
        \<longrightarrow> keeps_most_recent s s'"
      using rec_updateNode [of E nodeId updates h s] k by blast
    moreover have "\<forall>h' s'. removeNode depth E removedId (h, s) = Inr (h', s')
        \<longrightarrow> keeps_most_recent s s'"
      using rec_removeNode [of depth E removedId h s] k by blast
    moreover have "\<forall>g h' s'. loadFromJson E cfg False tid (h, s) = (g, h', s') \<longrightarrow>
          s' = s \<or> keeps_most_recent s s'"
      using load_records [of E cfg tid h s] k by blast
    ultimately show "length (history s) \<le> MAX_HISTORY \<and>
      (\<forall>h' s'. addNode E position component targetNodeId id1 id2 (h, s) = Inr (h', s') \<longrightarrow>
          s' = s \<or> keeps_most_recent s s') \<and>
      (\<forall>h' s'. updateNode E nodeId updates (h, s) = Inr (h', s') \<longrightarrow> keeps_most_recent s s') \<and>
      (\<forall>h' s'. removeNode depth E removedId (h, s) = Inr (h', s') \<longrightarrow> keeps_most_recent s s') \<and>
      keeps_most_recent s (addEdge edge s) \<and>
      keeps_most_recent s (removeEdge edgeId s) \<and>
      keeps_most_recent s (layoutNodes E s) \<and>
      keeps_most_recent s (addToHistory s) \<and>
      (\<forall>g h' s'. loadFromJson E cfg False tid (h, s) = (g, h', s') \<longrightarrow>
          s' = s \<or> keeps_most_recent s s')"
      using k [OF rec_addEdge] k [OF rec_removeEdge] k [OF rec_layoutNodes] k [OF rec_addToHistory]
      by blast
  qed
  moreover have "\<forall>g h' s'. loadFromJson E cfg True tid (h, s) = (g, h', s') \<longrightarrow>
       history s' = [\<lparr>snap_nodes = nodes s', snap_edges = edges s'\<rparr>] \<and>
       currentHistoryIndex s' = 0"
    using load_initial [of E cfg tid "(h, s)"] by blast
  moreover have "MAX_HISTORY = 50 \<and>
     history (resetHistory s) = [\<lparr>snap_nodes = nodes s, snap_edges = edges s\<rparr>] \<and>
     nodes (resetHistory s) = nodes s \<and> edges (resetHistory s) = edges s \<and>
     currentHistoryIndex (resetHistory s) = 0"
    by (simp add: resetHistory_def MAX_HISTORY_def)
  ultimately show ?thesis
    by blast
qed


theorem history_holds_at_most_50_witness:
  "reachable (demo_heap, full_state) \<and> length (history full_state) = 50 \<and>
   (\<exists>h' s'. addNode demo_load_env origin agent_json [] ''b'' ''g'' (demo_heap, full_state) = Inr (h', s') \<and>
      length (history s') = 50 \<and>
      history s' = tl (history full_state) @ [\<lparr>snap_nodes = nodes s', snap_edges = edges s'\<rparr>]) \<and>
   (\<exists>h' s'. updateNode demo_load_env ''a'' rename_only (demo_heap, full_state) = Inr (h', s') \<and>
      length (history s') = 50 \<and>
      history s' = tl (history full_state) @ [\<lparr>snap_nodes = nodes s', snap_edges = edges s'\<rparr>]) \<and>
   (\<exists>h' s'. removeNode 2 demo_load_env ''t'' (demo_heap, full_state) = Inr (h', s') \<and>
      length (history s') = 50 \<and>
      history s' = tl (history full_state) @ [\<lparr>snap_nodes = nodes s', snap_edges = edges s'\<rparr>]) \<and>
   length (history (addEdge stray_edge full_state)) = 50 \<and>
   history (addEdge stray_edge full_state) =
     tl (history full_state) @ [\<lparr>snap_nodes = demo_nodes, snap_edges = demo_edges @ [stray_edge]\<rparr>] \<and>
   (\<exists>g h' s'. loadFromJson demo_load_env 0 False None (demo_heap, full_state) = (g, h', s') \<and>
      length (nodes s') = 2 \<and> length (history s') = 50 \<and>
      history s' = tl (history full_state) @ [\<lparr>snap_nodes = nodes s', snap_edges = edges s'\<rparr>]) \<and>
   (\<exists>g h' s'. loadFromJson demo_load_env 0 True None (demo_heap, full_state) = (g, h', s') \<and>
      length (nodes s') = 2 \<and>
      history s' = [\<lparr>snap_nodes = nodes s', snap_edges = edges s'\<rparr>] \<and>
      currentHistoryIndex s' = 0)"
proof -
  note main = history_holds_at_most_50
    [where E = demo_load_env and position = origin and component = agent_json
       and targetNodeId = "[]" and ?id1.0 = "''b''" and ?id2.0 = "''g''" and h = demo_heap
       and s = full_state and nodeId = "''a''" and updates = rename_only and depth = 2
       and removedId = "''t''" and cfg = 0 and tid = None and edge = stray_edge]
  note f = full_state_facts
  have k: "kept_entries full_state = history full_state" "length (kept_entries full_state) = MAX_HISTORY"
    by (simp_all add: kept_entries_def f MAX_HISTORY_def)
  have cap: "\<And>s'. keeps_most_recent full_state s' \<Longrightarrow>
      length (history s') = 50 \<and>
      history s' = tl (history full_state) @ [\<lparr>snap_nodes = nodes s', snap_edges = edges s'\<rparr>]"
  proof -
    fix s'
    assume "keeps_most_recent full_state s'"
    from keeps_at_cap [OF this k(2)]
    show "length (history s') = 50 \<and>
      history s' = tl (history full_state) @ [\<lparr>snap_nodes = nodes s', snap_edges = edges s'\<rparr>]"
      unfolding k(1) MAX_HISTORY_def by blast
  qed
  obtain h1 s1 where
    a: "addNode demo_load_env origin agent_json [] ''b'' ''g'' (demo_heap, full_state) = Inr (h1, s1)"
    using full_addNode_returns by blast
  obtain h2 s2 where
    b: "updateNode demo_load_env ''a'' rename_only (demo_heap, full_state) = Inr (h2, s2)"
    using full_updateNode_returns by blast
  obtain h3 s3 where
    c: "removeNode 2 demo_load_env ''t'' (demo_heap, full_state) = Inr (h3, s3)"
    using full_removeNode_returns by blast
  obtain g4 h4 s4 where
    d: "loadFromJson demo_load_env 0 True None (demo_heap, full_state) = (g4, h4, s4)"
      "length (nodes s4) = 2"
    using full_load_initial_returns by blast
  obtain g5 h5 s5 where
    e: "loadFromJson demo_load_env 0 False None (demo_heap, full_state) = (g5, h5, s5)"
      "length (nodes s5) = 2" "s5 \<noteq> full_state"
    using full_load_edit_returns by blast
  have m: "length (history full_state) \<le> MAX_HISTORY"
    "\<forall>h' s'. addNode demo_load_env origin agent_json [] ''b'' ''g'' (demo_heap, full_state) = Inr (h', s')
        \<longrightarrow> s' = full_state \<or> keeps_most_recent full_state s'"
    "\<forall>h' s'. updateNode demo_load_env ''a'' rename_only (demo_heap, full_state) = Inr (h', s')
        \<longrightarrow> keeps_most_recent full_state s'"
    "\<forall>h' s'. removeNode 2 demo_load_env ''t'' (demo_heap, full_state) = Inr (h', s')
        \<longrightarrow> keeps_most_recent full_state s'"
    "keeps_most_recent full_state (addEdge stray_edge full_state)"
    "\<forall>g h' s'. loadFromJson demo_load_env 0 False None (demo_heap, full_state) = (g, h', s')
        \<longrightarrow> s' = full_state \<or> keeps_most_recent full_state s'"
    "\<forall>g h' s'. loadFromJson demo_load_env 0 True None (demo_heap, full_state) = (g, h', s') \<longrightarrow>
       history s' = [\<lparr>snap_nodes = nodes s', snap_edges = edges s'\<rparr>] \<and>
       currentHistoryIndex s' = 0"
    using main f(6) by blast+
  have s1n: "s1 \<noteq> full_state"
  proof
    assume "s1 = full_state"
    then have "length (nodes s1) = 2" by (simp add: f demo_nodes_def)
    moreover have "length (nodes s1) = 3"
      using a
      by (simp add: demo_load_env_def heap_defs demo_env_def team_json_def agent_json_def
          empty_cfg_json_def origin_def fresh_name_def demo_heap_def demo_nodes_def demo_edges_def
          addNode_defs recorded_def f) auto
    ultimately show False by simp
  qed
  have r1: "keeps_most_recent full_state s1" using m(2) a s1n by blast
  have r2: "keeps_most_recent full_state s2" using m(3) b by blast
  have r3: "keeps_most_recent full_state s3" using m(4) c by blast
  have r5: "keeps_most_recent full_state s5" using m(6) e by blast
  have r4: "history s4 = [\<lparr>snap_nodes = nodes s4, snap_edges = edges s4\<rparr>] \<and>
       currentHistoryIndex s4 = 0" using m(7) d by blast
  have e6: "nodes (addEdge stray_edge full_state) = demo_nodes"
    "edges (addEdge stray_edge full_state) = demo_edges @ [stray_edge]"
    by (simp_all add: addEdge_def f)
  show ?thesis
    using a b c d e f(5,6) cap [OF r1] cap [OF r2] cap [OF r3] cap [OF r5] cap [OF m(5)] r4
    unfolding e6 by simp
qed

subsection \<open>Allocation leaves the allocated objects alone\<close>

lemma heap_extends_refl: "heap_extends h h"
  by (simp add: heap_extends_def)

lemma heap_extends_trans: "heap_extends a b \<Longrightarrow> heap_extends b c \<Longrightarrow> heap_extends a c"
  by (auto simp: heap_extends_def)

lemma updateNode_one_extends:
  "updateNode_one E s i u n h = Inr (n', h') \<Longrightarrow> heap_extends h h'"
  by (auto simp: updateNode_one_def heap_extends_def new_arr_def new_cfg_def new_comp_def
      split: if_splits option.splits prod.splits)

lemma updateNode_map_extends:
  "updateNode_map E s i u ns h = Inr (ns', h') \<Longrightarrow> heap_extends h h'"
proof (induction ns arbitrary: h ns' h')
  case Nil
  then show ?case by (simp add: heap_extends_refl)
next
  case (Cons n ns)
  from Cons.prems obtain n1 h1 rest where
    a: "updateNode_one E s i u n h = Inr (n1, h1)" and
    b: "updateNode_map E s i u ns h1 = Inr (rest, h')"
    by (auto split: sum.splits prod.splits)
  show ?case
    using updateNode_one_extends [OF a] Cons.IH [OF b] by (rule heap_extends_trans)
qed

lemma updateNode_extends: "updateNode E i u (h, s) = Inr (h', s') \<Longrightarrow> heap_extends h h'"
  by (auto simp: updateNode_def split: sum.splits prod.splits dest: updateNode_map_extends)

lemma without_participant_extends:
  "without_participant E tn n h = Inr (n', h') \<Longrightarrow> heap_extends h h'"
  by (auto simp: without_participant_def heap_extends_def new_arr_def new_cfg_def new_comp_def
      split: option.splits prod.splits)

lemma forEach_extends:
  assumes step:
    "\<And>x h rm upd h' rm' upd'. f x (h, rm, upd) = Inr (h', rm', upd') \<Longrightarrow> heap_extends h h'"
  shows "forEach f xs (h, rm, upd) = Inr (h', rm', upd') \<Longrightarrow> heap_extends h h'"
proof (induction xs arbitrary: h rm upd)
  case Nil
  then show ?case by (simp add: heap_extends_refl)
next
  case (Cons x xs)
  from Cons.prems obtain h1 rm1 upd1 where
    a: "f x (h, rm, upd) = Inr (h1, rm1, upd1)" and
    b: "forEach f xs (h1, rm1, upd1) = Inr (h', rm', upd')"
    by (auto split: sum.splits)
  show ?case
    using step [OF a] Cons.IH [OF b] by (rule heap_extends_trans)
qed

lemma collect_extends:
  "collectNodesToRemove d E ns es x (h, rm, upd) = Inr (h', rm', upd') \<Longrightarrow> heap_extends h h'"
proof (induction d arbitrary: x h rm upd h' rm' upd')
  case 0
  then show ?case by (simp add: collectNodesToRemove.simps)
next
  case (Suc d)
  show ?case
  proof (cases "find_node x ns")
    case None
    then show ?thesis
      using Suc.prems by (simp add: collectNodesToRemove.simps heap_extends_refl)
  next
    case (Some node)
    show ?thesis
    proof (cases "isTeamComponent E (comps h (node_comp node))")
      case True
      then have "forEach (\<lambda>e. collectNodesToRemove d E ns es (target e))
         (filter (\<lambda>e. edge_type e = Some ''agent-connection'')
            (filter (\<lambda>edge. source edge = x \<or> target edge = x) es))
         (h, insert x rm, upd) = Inr (h', rm', upd')"
        using Suc.prems Some by (simp add: collectNodesToRemove.simps)
      then show ?thesis
        by (rule forEach_extends [rotated]) (rule Suc.IH)
    next
      case False
      then show ?thesis
        using Suc.prems Some
        by (auto simp: collectNodesToRemove.simps heap_extends_refl
            split: if_splits option.splits sum.splits prod.splits
            dest: without_participant_extends)
    qed
  qed
qed

lemma removeNode_extends: "removeNode d E i (h, s) = Inr (h', s') \<Longrightarrow> heap_extends h h'"
  by (auto simp: removeNode_def Let_def split: sum.splits prod.splits dest: collect_extends)

subsection \<open>undo right after a recording operation\<close>

lemma undo_after_record:
  assumes a: "at_snapshot s" and r: "records_snapshot s s'"
  shows "undo_restores s s'"
proof -
  let ?i = "currentHistoryIndex s"
  have i0: "0 \<le> ?i" "?i < int (length (history s))"
    and hi: "history s ! nat ?i = \<lparr>snap_nodes = nodes s, snap_edges = edges s\<rparr>"
    and bound: "?i + 1 < int MAX_HISTORY"
    using a by (auto simp: at_snapshot_def js_index_def split: if_splits)
  let ?snap = "\<lparr>snap_nodes = nodes s', snap_edges = edges s'\<rparr>"
  have sl: "js_slice0 (history s) (?i + 1) = take (nat (?i + 1)) (history s)"
    using i0 by (simp add: js_slice0_def)
  have len: "length (take (nat (?i + 1)) (history s) @ [?snap]) \<le> MAX_HISTORY"
    using i0 bound by simp
  have h': "history s' = take (nat (?i + 1)) (history s) @ [?snap]"
    using r len unfolding records_snapshot_def sl js_slice_last_def by simp
  have idx: "currentHistoryIndex s' = ?i + 1"
    using r by (simp add: records_snapshot_def)
  have "nat ?i < length (take (nat (?i + 1)) (history s))"
    using i0 by simp
  then have "history s' ! nat ?i = history s ! nat ?i"
    unfolding h' by (simp add: nth_append)
  moreover have "nat ?i < length (history s')"
    unfolding h' using i0 by simp
  ultimately show ?thesis
    using i0 hi idx by (simp add: undo_restores_def undo_def js_index_def)
qed

lemma demo_at_snapshot: "at_snapshot demo_state"
  by (simp add: at_snapshot_def demo_state_def js_index_def MAX_HISTORY_def)

text \<open>
  C1, as the code has it.  Take a state whose nodes and edges are the history
  entry at the current index, with room for one more entry below
  \<open>MAX_HISTORY\<close>.  After addNode (when it records), updateNode, removeNode,
  addEdge, removeEdge, layoutNodes or addToHistory, undo returns and sets
  nodes, edges and the index back to what they were: the same node and edge
  objects.  updateNode and removeNode write to no object that was allocated
  before (addEdge, removeEdge, layoutNodes and addToHistory do not touch the
  heap at all), so after these the values are exactly the old ones.  Nothing
  is said about what addNode leaves in the component objects.
\<close>

theorem undo_after_recording_restores_graph:
  assumes "at_snapshot s"
  shows
  "(\<forall>h' s'. addNode E position component targetNodeId id1 id2 (h, s) = Inr (h', s') \<longrightarrow>
       (targetNodeId \<noteq> [] \<and> find_node targetNodeId (nodes s) = None \<and> s' = s) \<or>
       undo_restores s s') \<and>
   (\<forall>h' s'. updateNode E nodeId updates (h, s) = Inr (h', s') \<longrightarrow>
       heap_extends h h' \<and> undo_restores s s') \<and>
   (\<forall>h' s'. removeNode depth E removedId (h, s) = Inr (h', s') \<longrightarrow>
       heap_extends h h' \<and> undo_restores s s') \<and>
   undo_restores s (addEdge edge s) \<and>
   undo_restores s (removeEdge edgeId s) \<and>
   undo_restores s (layoutNodes E s) \<and>
   undo_restores s (addToHistory s)"
proof -
  note u = undo_after_record [OF assms]
  have "\<forall>h' s'. addNode E position component targetNodeId id1 id2 (h, s) = Inr (h', s') \<longrightarrow>
       (targetNodeId \<noteq> [] \<and> find_node targetNodeId (nodes s) = None \<and> s' = s) \<or>
       undo_restores s s'"
    using rec_addNode [of E position component targetNodeId id1 id2 h s] u by blast
  moreover have "\<forall>h' s'. updateNode E nodeId updates (h, s) = Inr (h', s') \<longrightarrow>
       heap_extends h h' \<and> undo_restores s s'"
    using rec_updateNode [of E nodeId updates h s] updateNode_extends [of E nodeId updates h s] u
    by blast
  moreover have "\<forall>h' s'. removeNode depth E removedId (h, s) = Inr (h', s') \<longrightarrow>
       heap_extends h h' \<and> undo_restores s s'"
    using rec_removeNode [of depth E removedId h s] removeNode_extends [of depth E removedId h s] u
    by blast
  ultimately show ?thesis
    using u [OF rec_addEdge] u [OF rec_removeEdge] u [OF rec_layoutNodes] u [OF rec_addToHistory]
    by simp
qed

theorem undo_after_recording_restores_graph_witness:
  "at_snapshot demo_state \<and>
   (\<exists>h' s'. addNode demo_env origin agent_json [] ''b'' ''f'' (demo_heap, demo_state) = Inr (h', s') \<and>
      undo_restores demo_state s') \<and>
   (\<exists>h' s'. updateNode demo_env ''a'' rename_only (demo_heap, demo_state) = Inr (h', s') \<and>
      heap_extends demo_heap h' \<and> undo_restores demo_state s') \<and>
   (\<exists>h' s'. removeNode 2 demo_env ''t'' (demo_heap, demo_state) = Inr (h', s') \<and>
      heap_extends demo_heap h' \<and> undo_restores demo_state s') \<and>
   undo_restores demo_state (addEdge stray_edge demo_state)"
proof -
  note main = undo_after_recording_restores_graph
    [OF demo_at_snapshot, where E = demo_env and position = origin and component = agent_json
       and targetNodeId = "[]" and ?id1.0 = "''b''" and ?id2.0 = "''f''" and h = demo_heap
       and nodeId = "''a''" and updates = rename_only and depth = 2
       and removedId = "''t''" and edge = stray_edge]
  obtain h1 s1 where
    a: "addNode demo_env origin agent_json [] ''b'' ''f'' (demo_heap, demo_state) = Inr (h1, s1)"
    using demo_addNode_returns by blast
  obtain h2 s2 where
    b: "updateNode demo_env ''a'' rename_only (demo_heap, demo_state) = Inr (h2, s2)"
    using demo_updateNode_returns by blast
  obtain h3 s3 where
    c: "removeNode 2 demo_env ''t'' (demo_heap, demo_state) = Inr (h3, s3)"
    using demo_removeNode_returns by blast
  from main a have "undo_restores demo_state s1" by simp
  moreover from main b have "heap_extends demo_heap h2 \<and> undo_restores demo_state s2" by simp
  moreover from main c have "heap_extends demo_heap h3 \<and> undo_restores demo_state s3" by simp
  moreover from main have "undo_restores demo_state (addEdge stray_edge demo_state)" by simp
  ultimately show ?thesis
    using a b c demo_at_snapshot by simp
qed

text \<open>
  C1 as stated fails.  From the initial state (empty history, index \<open>-1\<close>)
  addEdge leaves index 0, where undo returns the state as it is: the edge
  stays.  And a model dropped on the assistant agent of the example store is
  written into the agent's config object, which the snapshots share: after
  undo the node list is the old one, but the agent's \<open>model_client\<close>, undefined
  before, is still the dropped model.
\<close>

theorem undo_after_recording_counterexample:
  "undo (addEdge stray_edge initial_state) = Inr (addEdge stray_edge initial_state) \<and>
   edges initial_state = [] \<and> edges (addEdge stray_edge initial_state) = [stray_edge] \<and>
   model_client (cfg_of demo_heap 1) = None \<and>
   (case addNode demo_env origin model_json ''a'' [] [] (demo_heap, demo_state) of
      Inl e \<Rightarrow> False
    | Inr (h', s') \<Rightarrow>
        (case undo s' of
           Inl e \<Rightarrow> False
         | Inr s'' \<Rightarrow> nodes s'' = nodes demo_state \<and> model_client (cfg_of h' 1) = Some 2))"
  by (simp add: undo_def addEdge_def heap_defs demo_defs history_defs addNode_defs
      addNode_model_def)

subsection \<open>syncToJson\<close>

lemma edge_participants_spec:
  "edge_participants E h tn ns es = map Some (team_agents E h (node_id tn) ns es)"
  by (induction es) (auto simp: edge_participants_def participant_of_def split: option.splits)

lemma find_node_in: "find_node i ns = Some n \<Longrightarrow> n \<in> set ns \<and> node_id n = i"
  by (auto simp: find_node_def find_Some_iff)

lemma team_agents_cong:
  "list_all (\<lambda>n. comps h' (node_comp n) = comps h (node_comp n)) ns \<Longrightarrow>
   team_agents E h' t ns es = team_agents E h t ns es"
proof (induction es)
  case Nil
  then show ?case by simp
next
  case (Cons e es)
  have "\<And>n. find_node (target e) ns = Some n \<Longrightarrow>
          comps h' (node_comp n) = comps h (node_comp n)"
    using Cons.prems by (auto simp: list_all_iff dest: find_node_in)
  then show ?case
    using Cons by (auto split: option.splits)
qed

text \<open>
  syncToJson returns null exactly when no node has \<open>component_type\<close> "team" or
  the first such node fails the team guard.
\<close>

lemma syncToJson_null:
  "fst (syncToJson E (h, s)) = None \<longleftrightarrow>
     (case filter (\<lambda>node. component_type (comps h (node_comp node)) = ''team'') (nodes s) of
        [] \<Rightarrow> True
      | teamNode # _ \<Rightarrow> \<not> isTeamComponent E (comps h (node_comp teamNode)))"
  by (auto simp: syncToJson_def buildTeamComponent_def new_comp_def new_arr_def
      split: list.splits prod.splits)

text \<open>
  Otherwise it returns a copy of the first team node's component whose
  participant list is the one the edges give.
\<close>

lemma syncToJson_team:
  assumes "filter (\<lambda>node. component_type (comps h (node_comp node)) = ''team'') (nodes s) =
             teamNode # rest"
    and "isTeamComponent E (comps h (node_comp teamNode))"
    and "list_all (\<lambda>n. node_comp n < next_comp h) (nodes s)"
    and "syncToJson E (h, s) = (r, h')"
  shows "\<exists>c. r = Some c \<and> comps h' c = comps h (node_comp teamNode) \<and>
     participant_list h' c =
       Some (map Some (team_agents E h (node_id teamNode) (nodes s) (edges s)))"
proof -
  let ?h1 = "snd (new_comp (comps h (node_comp teamNode)) h)"
  have "list_all (\<lambda>n. comps ?h1 (node_comp n) = comps h (node_comp n)) (nodes s)"
    using assms(3) by (auto simp: list_all_iff new_comp_def)
  then have "team_agents E ?h1 (node_id teamNode) (nodes s) (edges s) =
      team_agents E h (node_id teamNode) (nodes s) (edges s)"
    by (rule team_agents_cong)
  then show ?thesis
    using assms(1,2,4)
    by (auto simp: syncToJson_def buildTeamComponent_def edge_participants_spec
        participant_list_def new_comp_def new_arr_def set_cfg_def cfg_of_def split: prod.splits)
qed

text \<open>
  C8.  The claim: syncToJson leaves the store state unchanged.  The code: the
  returned component is a shallow copy, so the assignment to
  \<open>component.config.participants\<close> writes to the config object of the team node
  in the store.  In the example store with its edge removed, the team node's
  participant list is \<open>[agent]\<close> before syncToJson and \<open>[]\<close> after.
\<close>

theorem syncToJson_overwrites_participants:
  "participant_list demo_heap (node_comp (hd (nodes (removeEdge ''e'' demo_state)))) =
     Some [Some 1] \<and>
   (case syncToJson demo_env (demo_heap, removeEdge ''e'' demo_state) of
      (r, h') \<Rightarrow>
        r = Some 2 \<and>
        participant_list h' (node_comp (hd (nodes (removeEdge ''e'' demo_state)))) = Some [])"
  by (simp add: syncToJson_def buildTeamComponent_def edge_participants_def
      participant_list_def removeEdge_def node_comp_def heap_defs demo_defs)

subsection \<open>removeNode on a team node\<close>

lemma keys_match_upd: "keys_match upd \<Longrightarrow> node_id n = k \<Longrightarrow> keys_match (upd(k \<mapsto> n))"
  by (simp add: keys_match_def)

lemma without_participant_ok:
  assumes "participants (cfg_of h (node_comp teamNode)) \<noteq> None"
  shows "\<exists>n' h'. without_participant E teamNode node h = Inr (n', h') \<and>
           node_id n' = node_id teamNode \<and> heap_extends h h'"
proof -
  obtain pa where pa: "participants (cfg_of h (node_comp teamNode)) = Some pa"
    using assms by auto
  show ?thesis
    unfolding without_participant_def pa
    by (simp add: split_beta heap_extends_def new_arr_def new_cfg_def new_comp_def)
qed

lemma extends_node_comp:
  "heap_extends h h' \<Longrightarrow> nodes_allocated h ns \<Longrightarrow> n \<in> set ns \<Longrightarrow>
   comps h' (node_comp n) = comps h (node_comp n) \<and>
   cfg_of h' (node_comp n) = cfg_of h (node_comp n)"
  by (auto simp: heap_extends_def nodes_allocated_def list_all_iff cfg_of_def)

lemma collect_not_found:
  "find_node x ns = None \<Longrightarrow> collectNodesToRemove (Suc d) E ns es x acc = Inr acc"
  by (simp add: collectNodesToRemove.simps split: prod.splits)

lemma collect_team_found:
  "find_node x ns = Some n \<Longrightarrow> isTeamComponent E (comps hi (node_comp n)) \<Longrightarrow>
   collectNodesToRemove (Suc d) E ns es x (hi, rm, upd) =
     forEach (\<lambda>e. collectNodesToRemove d E ns es (target e))
       (filter (\<lambda>e. edge_type e = Some ''agent-connection'')
          (filter (\<lambda>edge. source edge = x \<or> target edge = x) es))
       (hi, insert x rm, upd)"
  by (simp add: collectNodesToRemove.simps)

lemma collect_agent_found:
  "find_node x ns = Some n \<Longrightarrow> \<not> isTeamComponent E (comps hi (node_comp n)) \<Longrightarrow>
   isAgentComponent E (comps hi (node_comp n)) \<Longrightarrow>
   collectNodesToRemove (Suc d) E ns es x (hi, rm, upd) =
     (case find (\<lambda>e. edge_type e = Some ''agent-connection'')
             (filter (\<lambda>edge. source edge = x \<or> target edge = x) es) of
        None \<Rightarrow> Inr (hi, insert x rm, upd)
      | Some teamEdge \<Rightarrow>
          (case find_node (source teamEdge) ns of
             None \<Rightarrow> Inr (hi, insert x rm, upd)
           | Some teamNode \<Rightarrow>
               if isTeamComponent E (comps hi (node_comp teamNode)) then
                 (case without_participant E teamNode n hi of
                    Inl e \<Rightarrow> Inl e
                  | Inr (updatedTeamNode, h1) \<Rightarrow>
                      Inr (h1, insert x rm, upd(node_id teamNode \<mapsto> updatedTeamNode)))
               else Inr (hi, insert x rm, upd)))"
  by (simp add: collectNodesToRemove.simps)

text \<open>One call for the target of an edge that leads to an agent node, or to no node.\<close>

lemma collect_agent:
  assumes ext: "heap_extends h hi" and al: "nodes_allocated h ns"
    and tp: "teams_have_participants E h ns"
    and ag: "targets_agent E h ns e"
    and ids: "keys_match upd"
  shows "\<exists>h' upd'. collectNodesToRemove (Suc d) E ns es (target e) (hi, rm, upd) =
           Inr (h', (if find_node (target e) ns = None then rm else insert (target e) rm), upd') \<and>
         heap_extends h h' \<and> keys_match upd'"
proof (cases "find_node (target e) ns")
  case None
  then show ?thesis
    using ext ids by (simp add: collect_not_found)
next
  case (Some n)
  have nin: "n \<in> set ns"
    using Some find_node_in by blast
  have eqn: "comps hi (node_comp n) = comps h (node_comp n)"
    using extends_node_comp [OF ext al nin] by simp
  have agn: "isAgentComponent E (comps hi (node_comp n))"
    "\<not> isTeamComponent E (comps hi (node_comp n))"
    using ag Some eqn by (auto simp: targets_agent_def)
  note unfold = collect_agent_found [OF Some agn(2) agn(1), of d es rm upd]
  let ?ce = "filter (\<lambda>edge. source edge = target e \<or> target edge = target e) es"
  show ?thesis
  proof (cases "find (\<lambda>e. edge_type e = Some ''agent-connection'') ?ce")
    case None
    then show ?thesis
      using Some ext ids by (simp add: unfold)
  next
    case te: (Some teamEdge)
    show ?thesis
    proof (cases "find_node (source teamEdge) ns")
      case None
      then show ?thesis
        using Some te ext ids by (simp add: unfold)
    next
      case tn: (Some teamNode)
      have tin: "teamNode \<in> set ns"
        using tn find_node_in by blast
      have eqt: "comps hi (node_comp teamNode) = comps h (node_comp teamNode)"
        "cfg_of hi (node_comp teamNode) = cfg_of h (node_comp teamNode)"
        using extends_node_comp [OF ext al tin] by simp_all
      show ?thesis
      proof (cases "isTeamComponent E (comps hi (node_comp teamNode))")
        case False
        then show ?thesis
          using Some te tn ext ids by (simp add: unfold)
      next
        case True
        then have "participants (cfg_of hi (node_comp teamNode)) \<noteq> None"
          using tp tin eqt by (auto simp: teams_have_participants_def list_all_iff)
        from without_participant_ok [OF this, of E n]
        obtain n' h' where w: "without_participant E teamNode n hi = Inr (n', h')"
          "node_id n' = node_id teamNode" "heap_extends hi h'"
          by blast
        have e: "heap_extends h h'"
          using ext w(3) by (rule heap_extends_trans)
        have "collectNodesToRemove (Suc d) E ns es (target e) (hi, rm, upd) =
            Inr (h', insert (target e) rm, upd(node_id teamNode \<mapsto> n'))"
          using te tn True w(1) by (simp add: unfold)
        moreover have "keys_match (upd(node_id teamNode \<mapsto> n'))"
          using ids w(2) by (rule keys_match_upd)
        ultimately show ?thesis
          using Some e by simp
      qed
    qed
  qed
qed

lemma forEach_collect:
  assumes al: "nodes_allocated h ns" and tp: "teams_have_participants E h ns"
  shows "heap_extends h hi \<Longrightarrow> list_all (targets_agent E h ns) xs \<Longrightarrow> keys_match upd \<Longrightarrow>
    \<exists>h' upd'. forEach (\<lambda>e. collectNodesToRemove (Suc d) E ns es (target e)) xs (hi, rm, upd) =
       Inr (h', rm \<union> set (map target (filter (\<lambda>e. find_node (target e) ns \<noteq> None) xs)), upd') \<and>
       heap_extends h h' \<and> keys_match upd'"
proof (induction xs arbitrary: hi rm upd)
  case Nil
  then show ?case by simp
next
  case (Cons e xs)
  let ?rm1 = "if find_node (target e) ns = None then rm else insert (target e) rm"
  let ?found = "\<lambda>xs. set (map target (filter (\<lambda>e. find_node (target e) ns \<noteq> None) xs))"
  have ag: "targets_agent E h ns e" and rest: "list_all (targets_agent E h ns) xs"
    using Cons.prems(2) by simp_all
  from collect_agent [OF Cons.prems(1) al tp ag Cons.prems(3), of d es rm]
  obtain h1 upd1 where s:
    "collectNodesToRemove (Suc d) E ns es (target e) (hi, rm, upd) = Inr (h1, ?rm1, upd1)"
    "heap_extends h h1" "keys_match upd1"
    by blast
  from Cons.IH [OF s(2) rest s(3), of ?rm1]
  obtain h' upd' where r:
    "forEach (\<lambda>e. collectNodesToRemove (Suc d) E ns es (target e)) xs (h1, ?rm1, upd1) =
       Inr (h', ?rm1 \<union> ?found xs, upd')"
    "heap_extends h h'" "keys_match upd'"
    by blast
  have step:
    "forEach (\<lambda>e. collectNodesToRemove (Suc d) E ns es (target e)) (e # xs) (hi, rm, upd) =
       Inr (h', ?rm1 \<union> ?found xs, upd')"
    by (simp only: forEach.simps s(1) r(1) sum.case)
  have sets: "?rm1 \<union> ?found xs = rm \<union> ?found (e # xs)"
    by auto
  show ?case
    using step r(2,3) unfolding sets by blast
qed

lemma cascade_ids_eq:
  assumes tn: "find_node t ns = Some tn" and team: "isTeamComponent E (comps h (node_comp tn))"
    and lead: "team_edges_lead_to_agents E h t ns es"
  shows "insert t {} \<union> set (map target (filter (\<lambda>e. find_node (target e) ns \<noteq> None)
            (filter (\<lambda>e. edge_type e = Some ''agent-connection'')
               (filter (\<lambda>edge. source edge = t \<or> target edge = t) es)))) = cascade_ids t ns es"
proof -
  have "\<And>e. e \<in> set es \<Longrightarrow> edge_type e = Some ''agent-connection'' \<Longrightarrow> target e = t \<Longrightarrow> False"
  proof -
    fix e
    assume "e \<in> set es" "edge_type e = Some ''agent-connection''" "target e = t"
    then have "case find_node (target e) ns of
         None \<Rightarrow> True
       | Some n \<Rightarrow> isAgentComponent E (comps h (node_comp n)) \<and>
                   \<not> isTeamComponent E (comps h (node_comp n))"
      using lead by (auto simp: team_edges_lead_to_agents_def list_all_iff)
    then show False
      using tn team \<open>target e = t\<close> by simp
  qed
  then show ?thesis
    by (auto simp: cascade_ids_def)
qed

text \<open>
  C4, as the code has it.  Let \<open>t\<close> be a team node such that every
  agent-connection edge touching \<open>t\<close> leads to an agent node that is not a team
  node, or to no node; let the nodes' components be allocated objects and
  every team node have a participant list.  Then removeNode on \<open>t\<close>, with room
  for two nested calls, returns; the remaining node ids are the old ones, in
  order, without \<open>t\<close> and without the targets of \<open>t\<close>'s agent-connection edges;
  the remaining edges are the old ones without those that touch a removed
  node.
\<close>

theorem removeNode_team_cascade:
  assumes tn: "find_node t (nodes s) = Some tn"
    and team: "isTeamComponent E (comps h (node_comp tn))"
    and lead: "team_edges_lead_to_agents E h t (nodes s) (edges s)"
    and al: "nodes_allocated h (nodes s)"
    and tp: "teams_have_participants E h (nodes s)"
    and depth: "2 \<le> depth"
  shows "\<exists>h' s'. removeNode depth E t (h, s) = Inr (h', s') \<and>
      map node_id (nodes s') =
        filter (\<lambda>i. i \<notin> cascade_ids t (nodes s) (edges s)) (map node_id (nodes s)) \<and>
      edges s' =
        filter (\<lambda>e. source e \<notin> cascade_ids t (nodes s) (edges s) \<and>
                     target e \<notin> cascade_ids t (nodes s) (edges s)) (edges s)"
proof -
  obtain d where d: "depth = Suc (Suc d)"
    using depth by (metis Suc_le_D numeral_2_eq_2 add_2_eq_Suc le_Suc_ex)
  let ?AE = "filter (\<lambda>e. edge_type e = Some ''agent-connection'')
               (filter (\<lambda>edge. source edge = t \<or> target edge = t) (edges s))"
  have la: "list_all (targets_agent E h (nodes s)) ?AE"
    using lead by (simp add: team_edges_lead_to_agents_def targets_agent_def list_all_iff)
  have km: "keys_match Map.empty"
    by (simp add: keys_match_def)
  from forEach_collect [OF al tp heap_extends_refl la km, of d "edges s" "insert t {}"]
  obtain h' upd' where f:
    "forEach (\<lambda>e. collectNodesToRemove (Suc d) E (nodes s) (edges s) (target e)) ?AE
        (h, insert t {}, Map.empty) =
       Inr (h', insert t {} \<union>
                set (map target (filter (\<lambda>e. find_node (target e) (nodes s) \<noteq> None) ?AE)), upd')"
    "keys_match upd'"
    by blast
  have c: "collectNodesToRemove depth E (nodes s) (edges s) t (h, {}, Map.empty) =
      Inr (h', cascade_ids t (nodes s) (edges s), upd')"
    unfolding d collect_team_found [OF tn team] f(1) cascade_ids_eq [OF tn team lead] ..
  have ids: "\<And>n. node_id (case upd' (node_id n) of None \<Rightarrow> n | Some n' \<Rightarrow> n') = node_id n"
    using f(2) by (auto simp: keys_match_def split: option.splits)
  have "map node_id
          (map (\<lambda>node. case upd' (node_id node) of None \<Rightarrow> node | Some node' \<Rightarrow> node')
             (filter (\<lambda>node. node_id node \<notin> cascade_ids t (nodes s) (edges s)) (nodes s))) =
        filter (\<lambda>i. i \<notin> cascade_ids t (nodes s) (edges s)) (map node_id (nodes s))"
    by (simp add: ids filter_map comp_def)
  then show ?thesis
    by (simp add: removeNode_def c recorded_def Let_def)
qed

theorem removeNode_team_cascade_witness:
  "find_node ''t'' (nodes demo_state) = Some (hd demo_nodes) \<and>
   isTeamComponent demo_env (comps demo_heap (node_comp (hd demo_nodes))) \<and>
   team_edges_lead_to_agents demo_env demo_heap ''t'' (nodes demo_state) (edges demo_state) \<and>
   nodes_allocated demo_heap (nodes demo_state) \<and>
   teams_have_participants demo_env demo_heap (nodes demo_state) \<and>
   cascade_ids ''t'' (nodes demo_state) (edges demo_state) = {''t'', ''a''} \<and>
   (\<exists>h' s'. removeNode 2 demo_env ''t'' (demo_heap, demo_state) = Inr (h', s') \<and>
      map node_id (nodes s') = [] \<and> edges s' = [])"
proof -
  have hyps: "find_node ''t'' (nodes demo_state) = Some (hd demo_nodes)"
    "isTeamComponent demo_env (comps demo_heap (node_comp (hd demo_nodes)))"
    "team_edges_lead_to_agents demo_env demo_heap ''t'' (nodes demo_state) (edges demo_state)"
    "nodes_allocated demo_heap (nodes demo_state)"
    "teams_have_participants demo_env demo_heap (nodes demo_state)"
    by (simp_all add: heap_defs demo_defs find_node_def node_comp_def
        team_edges_lead_to_agents_def nodes_allocated_def teams_have_participants_def)
  have casc: "cascade_ids ''t'' (nodes demo_state) (edges demo_state) = {''t'', ''a''}"
    by (simp add: cascade_ids_def demo_defs find_node_def)
  have ids: "map node_id (nodes demo_state) = [''t'', ''a'']"
    and es: "map source (edges demo_state) = [''t'']"
    by (simp_all add: demo_defs)
  from removeNode_team_cascade [OF hyps order_refl]
  obtain h' s' where
    r: "removeNode 2 demo_env ''t'' (demo_heap, demo_state) = Inr (h', s')" and
    n: "map node_id (nodes s') =
          filter (\<lambda>i. i \<notin> cascade_ids ''t'' (nodes demo_state) (edges demo_state))
            (map node_id (nodes demo_state))" and
    e: "edges s' =
          filter (\<lambda>e. source e \<notin> cascade_ids ''t'' (nodes demo_state) (edges demo_state) \<and>
                       target e \<notin> cascade_ids ''t'' (nodes demo_state) (edges demo_state))
            (edges demo_state)"
    by blast
  have "map node_id (nodes s') = []"
    unfolding n casc ids by simp
  moreover have "edges s' = []"
    unfolding e casc by (simp add: demo_defs)
  ultimately show ?thesis
    using hyps casc r by simp
qed

text \<open>
  C4 as stated fails.  Drop a workbench on the canvas of the example store: it
  becomes a third node \<open>w\<close>, which is not an agent.  Add an agent-connection
  edge from the team node to \<open>w\<close>.  removeNode on the team node then removes
  \<open>w\<close> as well.
\<close>

theorem removeNode_removes_non_agent_counterexample:
  "(case addNode demo_env origin workbench_json [] ''w'' [] (demo_heap, demo_state) of
      Inl e \<Rightarrow> False
    | Inr (h, s) \<Rightarrow>
        map node_id (nodes s) = [''t'', ''a'', ''w''] \<and>
        (case find_node ''w'' (nodes s) of
           None \<Rightarrow> False
         | Some n \<Rightarrow> \<not> isAgentComponent demo_env (comps h (node_comp n))) \<and>
        (case removeNode 2 demo_env ''t'' (h, addEdge stray_edge s) of
           Inl e \<Rightarrow> False
         | Inr (h', s') \<Rightarrow> nodes s' = []))"
  by (simp add: heap_defs demo_defs history_defs addNode_defs removeNode_def addEdge_def
      stray_edge_def collectNodesToRemove.simps without_participant_def numeral_2_eq_2)

subsection \<open>A tool dropped on an assistant agent\<close>


lemma ext_new_comp: "heap_extends h0 h \<Longrightarrow> heap_extends h0 (snd (new_comp c h))"
  by (simp add: heap_extends_def new_comp_def)
lemma ext_new_cfg: "heap_extends h0 h \<Longrightarrow> heap_extends h0 (snd (new_cfg c h))"
  by (simp add: heap_extends_def new_cfg_def)
lemma ext_new_arr: "heap_extends h0 h \<Longrightarrow> heap_extends h0 (snd (new_arr c h))"
  by (simp add: heap_extends_def new_arr_def)

lemma alloc_extends:
  "heap_extends h0 h \<Longrightarrow> heap_extends h0 (snd (alloc_comp c h))"
  "heap_extends h0 h \<Longrightarrow> heap_extends h0 (snd (alloc_cfg g h))"
  "heap_extends h0 h \<Longrightarrow> heap_extends h0 (snd (alloc_wb w h))"
  "heap_extends h0 h \<Longrightarrow> heap_extends h0 (snd (alloc_opt oc h))"
  "heap_extends h0 h \<Longrightarrow> heap_extends h0 (snd (alloc_elems cs h))"
  "heap_extends h0 h \<Longrightarrow> heap_extends h0 (snd (alloc_arr_opt ao h))"
proof (induction c h and g h and w h and oc h and cs h and ao h
    rule: alloc_comp_alloc_cfg_alloc_wb_alloc_opt_alloc_elems_alloc_arr_opt.induct)
  case (1 p ct v cv l d c h)
  then show ?case by (simp add: split_beta ext_new_comp)
next
  case (2 n mc wb ps ts tc ot h)
  then show ?case
    by (simp add: split_beta ext_new_cfg prod_eq_iff)
next
  case (5 cs h)
  then show ?case by (simp add: split_beta ext_new_arr)
next
  case (9 c cs h)
  then show ?case by (simp add: split_beta prod_eq_iff)
next
  case (11 cs h)
  then show ?case by (simp add: split_beta ext_new_arr)
qed (simp_all add: split_beta)

lemma alloc_cfg_fresh:
  "alloc_cfg cj h = (g, h1) \<Longrightarrow> next_cfg h \<le> g \<and> g < next_cfg h1 \<and> next_comp h \<le> next_comp h1"
proof (cases cj)
  case (CfgJ n mc wb ps ts tc ot)
  assume a: "alloc_cfg cj h = (g, h1)"
  let ?h5 = "snd (alloc_opt tc (snd (alloc_arr_opt ts (snd (alloc_arr_opt ps (snd (alloc_wb wb (snd (alloc_opt mc h)))))))))"
  have e: "heap_extends h ?h5"
    by (intro alloc_extends) (simp add: heap_extends_def)
  have "g = next_cfg ?h5" "next_cfg h1 = Suc (next_cfg ?h5)" "next_comp h1 = next_comp ?h5"
    using a unfolding CfgJ by (auto simp: split_beta new_cfg_def)
  then show ?thesis using e by (simp add: heap_extends_def)
qed

lemma alloc_comp_clone:
  assumes "alloc_comp component h = (cc, h1)"
  shows "heap_extends h h1 \<and> next_comp h \<le> cc \<and> cc < next_comp h1 \<and>
     next_cfg h \<le> config (comps h1 cc) \<and> config (comps h1 cc) < next_cfg h1 \<and>
     tool_name h1 (Some cc) = json_tool_name component"
proof -
  have e: "heap_extends h h1"
    using alloc_extends(1) [of h h component] assms by (simp add: heap_extends_def)
  obtain p ct v cv l d n mc wb ps ts tc ot where c: "component = CompJ p ct v cv l d (CfgJ n mc wb ps ts tc ot)"
    by (metis comp_json.exhaust cfg_json.exhaust)
  obtain g h2 where g: "alloc_cfg (CfgJ n mc wb ps ts tc ot) h = (g, h2)"
    by (cases "alloc_cfg (CfgJ n mc wb ps ts tc ot) h") auto
  have fr: "next_cfg h \<le> g" "g < next_cfg h2" "next_comp h \<le> next_comp h2"
    using alloc_cfg_fresh [OF g] by simp_all
  have cc: "cc = next_comp h2" and h1: "h1 = snd (new_comp \<lparr>provider = p, component_type = ct, version = v, component_version = cv,
                  label = l, description = d, config = g\<rparr> h2)"
    using assms g unfolding c by (auto simp: new_comp_def)
  have nm: "name (cfgs h2 g) = n"
    using g by (auto simp: split_beta new_cfg_def)
  show ?thesis
    using e fr nm unfolding cc h1 c
    by (simp add: new_comp_def tool_name_def cfg_of_def)
qed






lemma find_static_comps:
  "comps h' = comps h \<Longrightarrow> find_static E h' xs = find_static E h xs"
  by (induction E h xs rule: find_static.induct) auto

lemma static_config: "config (static_workbench_component k) = k"
  by (simp add: static_workbench_component_def)


lemmas tool_defs =
  addNode_tool_def ensure_workbench_def normalizeWorkbenches_def new_static_workbench_def
  new_arr_def new_cfg_def new_comp_def set_cfg_def push_tool_def push_arr_def cfg_of_def Let_def
  workbench_list_def tool_list_def tool_name_def tool_added_def static_config


























text \<open>The example heap with a StaticWorkbench is what the operations build.\<close>

lemma tools_world_built:
  "\<exists>h s. addNode demo_env origin workbench_json ''a'' [] [] (demo_heap, demo_state) = Inr (h, s) \<and>
     (\<exists>s'. addNode demo_env origin tool_json ''a'' [] [] (h, s) = Inr (tools_heap, s'))"
  by (simp add: heap_defs demo_defs addNode_defs addNode_workbench_def tool_defs recorded_def
      find_static.simps tools_heap_def static_workbench_component_def fun_eq_iff)





subsection \<open>Participants and edges\<close>


lemma team_agents_append:
  "team_agents E h t ns (es @ es') = team_agents E h t ns es @ team_agents E h t ns es'"
  by (induction es) (auto split: option.splits)

lemma find_node_append:
  "find_node i (ns @ [n]) = (case find_node i ns of Some m \<Rightarrow> Some m | None \<Rightarrow> if node_id n = i then Some n else None)"
  by (induction ns) (auto simp: find_node_def)

lemma team_agents_grow:
  assumes al: "\<And>n. n \<in> set ns \<Longrightarrow> comps h' (node_comp n) = comps h (node_comp n)"
    and fresh: "node_id m \<notin> target ` set es"
  shows "team_agents E h' t (ns @ [m]) es = team_agents E h t ns es"
  using fresh
proof (induction es)
  case Nil
  then show ?case by simp
next
  case (Cons e es)
  have ne: "node_id m \<noteq> target e" using Cons.prems by auto
  have f: "find_node (target e) (ns @ [m]) = find_node (target e) ns"
    using ne by (simp add: find_node_append split: option.splits)
  have "\<And>n. find_node (target e) ns = Some n \<Longrightarrow> comps h' (node_comp n) = comps h (node_comp n)"
    using al find_node_in by blast
  then show ?case
    using Cons f by (auto split: option.splits)
qed

lemma find_node_same_graph:
  assumes "map node_id ns' = map node_id ns" and "map node_data ns' = map node_data ns"
  shows "map_option node_data (find_node i ns') = map_option node_data (find_node i ns)"
proof -
  have "length ns' = length ns" using assms(1) by (metis length_map)
  then show ?thesis using assms
    by (induction ns' ns rule: list_induct2) (auto simp: find_node_def)
qed

lemma team_agents_same_graph:
  assumes "map node_id ns' = map node_id ns" and "map node_data ns' = map node_data ns"
  shows "team_agents E h t ns' es = team_agents E h t ns es"
proof (induction es)
  case Nil
  then show ?case by simp
next
  case (Cons e es)
  from find_node_same_graph [OF assms, of "target e"]
  have "map_option node_comp (find_node (target e) ns') = map_option node_comp (find_node (target e) ns)"
    by (cases "find_node (target e) ns'"; cases "find_node (target e) ns") (auto simp: node_comp_def)
  then show ?case
    using Cons by (cases "find_node (target e) ns'"; cases "find_node (target e) ns") auto
qed

lemma first_team_same_graph:
  assumes "map node_id ns' = map node_id ns" and "map node_data ns' = map node_data ns"
    and "first_team E h ns = Some tn"
  shows "\<exists>tn'. first_team E h ns' = Some tn' \<and> node_id tn' = node_id tn \<and> node_data tn' = node_data tn"
proof -
  have "length ns' = length ns" using assms(1) by (metis length_map)
  then show ?thesis using assms
    by (induction ns' ns rule: list_induct2) (auto simp: first_team_def node_comp_def)
qed

lemma first_team_append: "first_team E h ns = Some tn \<Longrightarrow> first_team E h (ns @ [m]) = Some tn"
  by (induction ns) (auto simp: first_team_def)

lemma first_team_in: "first_team E h ns = Some tn \<Longrightarrow> tn \<in> set ns \<and> isTeamComponent E (comps h (node_comp tn))"
  by (auto simp: first_team_def find_Some_iff)

lemma first_team_cong:
  "(\<And>n. n \<in> set ns \<Longrightarrow> comps h' (node_comp n) = comps h (node_comp n)) \<Longrightarrow>
   first_team E h' ns = first_team E h ns"
  unfolding first_team_def by (rule find_cong) auto

lemma agent_names_all:
  "list_all (\<lambda>x. x \<noteq> None) xs \<Longrightarrow> \<exists>ns. agent_names h xs = Inr ns"
  by (induction xs) auto


lemma nodes_allocated_same:
  "heap_extends h0 h1 \<Longrightarrow> nodes_allocated h0 ns \<Longrightarrow> n \<in> set ns \<Longrightarrow>
   comps h1 (node_comp n) = comps h0 (node_comp n) \<and> cfg_of h1 (node_comp n) = cfg_of h0 (node_comp n) \<and>
   node_comp n < next_comp h0 \<and> config (comps h0 (node_comp n)) < next_cfg h0"
  by (auto simp: heap_extends_def nodes_allocated_def list_all_iff cfg_of_def)


lemma addNode_new_agent:
  assumes nt: "\<not> isTeamComponent E (comps h1 cc)" and ag: "isAgentComponent E (comps h1 cc)"
    and ft: "first_team E h1 ns = Some teamNode"
    and cg: "config (comps h1 cc) \<noteq> config (comps h1 (node_comp teamNode))"
    and pl: "participant_list h1 (node_comp teamNode) = Some ps"
    and nn: "list_all (\<lambda>x. x \<noteq> None) ps"
  shows "\<exists>h2 lbl. addNode_new E position cc id1 id2 (h1, ns, es) =
       Inr (h2, ns @ [new_node id1 position (comps h1 cc) lbl cc],
            es @ [agent_edge id2 (node_id teamNode) id1]) \<and>
     comps h2 = comps h1 \<and> participant_list h2 (node_comp teamNode) = Some (ps @ [Some cc])"
proof -
  let ?tc = "node_comp teamNode"
  obtain pa where pa: "participants (cfg_of h1 ?tc) = Some pa" "arrs h1 pa = ps"
    using pl by (auto simp: participant_list_def)
  obtain names where an: "agent_names h1 ps = Inr names"
    using agent_names_all [OF nn] by blast
  have team: "isTeamComponent E (comps h1 ?tc)"
    using ft by (auto simp: first_team_def find_Some_iff)
  have ft': "find (\<lambda>n. isTeamComponent E (comps h1 (node_comp n))) ns = Some teamNode"
    using ft by (simp add: first_team_def)
  show ?thesis
    using nt ag cg pa an team
    by (auto simp: addNode_new_def ft' push_participant_def set_cfg_def push_arr_def cfg_of_def
        participant_list_def Let_def agent_edge_def)
qed


lemma team_agents_new_edge:
  assumes fresh: "find_node i ns = None" and ag: "isAgentComponent E (comps h cc)"
  shows "team_agents E h t (ns @ [new_node i position c lbl cc]) [agent_edge j t i] = [cc]"
  using fresh ag
  by (simp add: agent_edge_def find_node_append new_node_def node_comp_def)

lemma demo_layout_keeps_graph: "layout_keeps_graph demo_env"
  by (simp add: layout_keeps_graph_def same_graph_def demo_env_def)

text \<open>
  C3, as the code has it.  addNode keeps the participant list of the first
  team node in step with the edges when an agent is dropped.  Let the
  participant list of the first team node be the list its agent-connection
  edges give; let the dropped component be accepted by the agent guard and by
  none of the other component guards; let the id of the new node be new, as
  \<open>nanoid()\<close> makes it, the nodes' components be allocated objects and the layout
  helpers return the graph they are given.  Then addNode returns, the first
  team node is the same node, the clone is appended to its participant list,
  and that list is again the list the edges give.
\<close>

theorem agent_drop_keeps_participants_in_step:
  assumes tgt: "targetNodeId = [] \<or> find_node targetNodeId (nodes s) \<noteq> None"
    and cl: "alloc_comp component h0 = (cc, h1)"
    and ag: "isAgentComponent E (comps h1 cc)" "\<not> isTeamComponent E (comps h1 cc)"
    and other: "\<not> isModelComponent E (comps h1 cc)" "\<not> isToolComponent E (comps h1 cc)"
       "\<not> isTerminationComponent E (comps h1 cc)" "\<not> isWorkbenchComponent E (comps h1 cc)"
    and ft: "first_team E h0 (nodes s) = Some teamNode"
    and mir: "participants_mirror_edges E h0 s teamNode"
    and al: "nodes_allocated h0 (nodes s)"
    and pal: "case participants (cfg_of h0 (node_comp teamNode)) of None \<Rightarrow> True | Some pa \<Rightarrow> pa < next_arr h0"
    and fresh: "find_node id1 (nodes s) = None" "id1 \<notin> target ` set (edges s)"
    and lay: "layout_keeps_graph E"
  shows "\<exists>h' s' teamNode'. addNode E position component targetNodeId id1 id2 (h0, s) = Inr (h', s') \<and>
      first_team E h' (nodes s') = Some teamNode' \<and>
      node_id teamNode' = node_id teamNode \<and> node_comp teamNode' = node_comp teamNode \<and>
      participant_list h' (node_comp teamNode) =
        Some (map Some (team_agents E h0 (node_id teamNode) (nodes s) (edges s)) @ [Some cc]) \<and>
      participants_mirror_edges E h' s' teamNode'"
proof -
  let ?tc = "node_comp teamNode"
  let ?t = "node_id teamNode"
  let ?old = "team_agents E h0 ?t (nodes s) (edges s)"
  from alloc_comp_clone [OF cl]
  have e: "heap_extends h0 h1" and fr: "next_comp h0 \<le> cc" "next_cfg h0 \<le> config (comps h1 cc)"
    by simp_all
  have same1: "\<And>n. n \<in> set (nodes s) \<Longrightarrow> comps h1 (node_comp n) = comps h0 (node_comp n)"
    using nodes_allocated_same [OF e al] by blast
  have ft1: "first_team E h1 (nodes s) = Some teamNode"
    using first_team_cong [of "nodes s" h1 h0 E] same1 ft by simp
  have tin: "teamNode \<in> set (nodes s)"
    using first_team_in [OF ft] by simp
  note ts = nodes_allocated_same [OF e al tin]
  have cg: "config (comps h1 cc) \<noteq> config (comps h1 ?tc)"
    using ts fr by simp
  have pl0: "participant_list h0 ?tc = Some (map Some ?old)"
    using mir by (simp add: participants_mirror_edges_def)
  have pl1: "participant_list h1 ?tc = Some (map Some ?old)"
  proof -
    obtain pa where pa: "participants (cfg_of h0 ?tc) = Some pa" "arrs h0 pa = map Some ?old"
      using pl0 by (auto simp: participant_list_def)
    have "pa < next_arr h0" using pal pa by simp
    then have "arrs h1 pa = arrs h0 pa" using e by (simp add: heap_extends_def)
    then show ?thesis using pa ts by (simp add: participant_list_def)
  qed
  have nn: "list_all (\<lambda>x. x \<noteq> None) (map Some ?old)"
    by (simp add: list_all_iff)
  from addNode_new_agent [OF ag(2) ag(1) ft1 cg pl1 nn, of position id1 id2 "edges s"]
  obtain h2 lbl where new: "addNode_new E position cc id1 id2 (h1, nodes s, edges s) =
       Inr (h2, nodes s @ [new_node id1 position (comps h1 cc) lbl cc],
            edges s @ [agent_edge id2 ?t id1])"
    and c2: "comps h2 = comps h1"
    and pl2: "participant_list h2 ?tc = Some (map Some ?old @ [Some cc])"
    by blast
  let ?ns = "nodes s @ [new_node id1 position (comps h1 cc) lbl cc]"
  let ?es = "edges s @ [agent_edge id2 ?t id1]"
  have same2: "\<And>n. n \<in> set (nodes s) \<Longrightarrow> comps h2 (node_comp n) = comps h0 (node_comp n)"
    using same1 c2 by simp
  have fresh': "node_id (new_node id1 position (comps h1 cc) lbl cc) \<notin> target ` set (edges s)"
    using fresh(2) by (simp add: new_node_def)
  have ta: "team_agents E h2 ?t ?ns ?es = ?old @ [cc]"
    using team_agents_grow [of "nodes s" h2 h0 "new_node id1 position (comps h1 cc) lbl cc" "edges s" E ?t, OF same2 fresh']
      team_agents_new_edge [OF fresh(1), of E h2 cc ?t position "comps h1 cc" lbl id2] ag(1) c2
    by (simp add: team_agents_append)
  have ft2: "first_team E h2 ?ns = Some teamNode"
    using first_team_cong [of "nodes s" h2 h0 E] same2 ft first_team_append by simp
  define g where "g = (if targetNodeId \<noteq> [] then updateNodeDimensions E ?ns ?es
      else getLayoutedElements E ?ns ?es (truthy_str (teamId s)) None)"
  have sg: "same_graph g ?ns ?es"
    using lay unfolding g_def layout_keeps_graph_def by simp
  have run: "addNode E position component targetNodeId id1 id2 (h0, s) =
      Inr (h2, recorded s (fst g) (snd g))"
    using tgt cl other new
    by (auto simp: addNode_def addNode_onTarget_def g_def Let_def split_beta split: option.splits)
  have ids: "map node_id (fst g) = map node_id ?ns" "map node_data (fst g) = map node_data ?ns"
    and es: "snd g = ?es"
    using sg by (simp_all add: same_graph_def)
  from first_team_same_graph [OF ids ft2]
  obtain tn' where tn': "first_team E h2 (fst g) = Some tn'" "node_id tn' = ?t"
    "node_data tn' = node_data teamNode" by blast
  have nc: "node_comp tn' = ?tc" using tn'(3) by (simp add: node_comp_def)
  have "team_agents E h2 ?t (fst g) (snd g) = ?old @ [cc]"
    using team_agents_same_graph [OF ids] ta es by simp
  then have "participants_mirror_edges E h2 (recorded s (fst g) (snd g)) tn'"
    using pl2 tn'(2) nc by (simp add: participants_mirror_edges_def recorded_def)
  then show ?thesis
    using run tn' nc pl2 by (simp add: recorded_def)
qed

theorem agent_drop_keeps_participants_in_step_witness:
  "alloc_comp agent_json demo_heap = (2, snd (alloc_comp agent_json demo_heap)) \<and>
   isAgentComponent demo_env (comps (snd (alloc_comp agent_json demo_heap)) 2) \<and>
   first_team demo_env demo_heap (nodes demo_state) = Some (hd demo_nodes) \<and>
   participants_mirror_edges demo_env demo_heap demo_state (hd demo_nodes) \<and>
   nodes_allocated demo_heap (nodes demo_state) \<and>
   find_node ''b'' (nodes demo_state) = None \<and>
   layout_keeps_graph demo_env \<and>
   (\<exists>h' s' teamNode'.
      addNode demo_env origin agent_json [] ''b'' ''f'' (demo_heap, demo_state) = Inr (h', s') \<and>
      first_team demo_env h' (nodes s') = Some teamNode' \<and>
      participant_list h' (node_comp (hd demo_nodes)) = Some [Some 1, Some 2] \<and>
      participants_mirror_edges demo_env h' s' teamNode')"
proof -
  have cl: "alloc_comp agent_json demo_heap = (2, snd (alloc_comp agent_json demo_heap))"
    by (simp add: prod_eq_iff heap_defs demo_defs)
  have ag: "isAgentComponent demo_env (comps (snd (alloc_comp agent_json demo_heap)) 2)"
    "\<not> isTeamComponent demo_env (comps (snd (alloc_comp agent_json demo_heap)) 2)"
    and other: "\<not> isModelComponent demo_env (comps (snd (alloc_comp agent_json demo_heap)) 2)"
    "\<not> isToolComponent demo_env (comps (snd (alloc_comp agent_json demo_heap)) 2)"
    "\<not> isTerminationComponent demo_env (comps (snd (alloc_comp agent_json demo_heap)) 2)"
    "\<not> isWorkbenchComponent demo_env (comps (snd (alloc_comp agent_json demo_heap)) 2)"
    by (simp_all add: heap_defs demo_defs)
  have ft: "first_team demo_env demo_heap (nodes demo_state) = Some (hd demo_nodes)"
    by (simp add: first_team_def heap_defs demo_defs node_comp_def)
  have ta: "team_agents demo_env demo_heap (node_id (hd demo_nodes)) (nodes demo_state)
      (edges demo_state) = [1]"
    by (simp add: heap_defs demo_defs node_comp_def find_node_def)
  have mir: "participants_mirror_edges demo_env demo_heap demo_state (hd demo_nodes)"
    unfolding participants_mirror_edges_def ta
    by (simp add: participant_list_def heap_defs demo_defs node_comp_def)
  have al: "nodes_allocated demo_heap (nodes demo_state)"
    by (simp add: nodes_allocated_def heap_defs demo_defs node_comp_def)
  have pal: "case participants (cfg_of demo_heap (node_comp (hd demo_nodes))) of
      None \<Rightarrow> True | Some pa \<Rightarrow> pa < next_arr demo_heap"
    by (simp add: heap_defs demo_defs node_comp_def)
  have fresh: "find_node ''b'' (nodes demo_state) = None"
    "''b'' \<notin> target ` set (edges demo_state)"
    by (simp_all add: demo_defs find_node_def)
  from agent_drop_keeps_participants_in_step
    [OF _ cl ag other ft mir al pal fresh demo_layout_keeps_graph, of "[]" origin "''f''"]
  show ?thesis
    using cl ag(1) ft mir al fresh(1) demo_layout_keeps_graph ta by auto
qed

text \<open>
  C3 as stated fails.  The example store is reachable and its team node's
  participant list is \<open>[agent]\<close>.  removeEdge takes the edge away and leaves the
  list alone: the edges now give the empty list.
\<close>

theorem participants_mirror_edges_counterexample:
  "reachable (demo_heap, removeEdge ''e'' demo_state) \<and>
   first_team demo_env demo_heap (nodes (removeEdge ''e'' demo_state)) = Some (hd demo_nodes) \<and>
   participant_list demo_heap (node_comp (hd demo_nodes)) = Some [Some 1] \<and>
   team_agents demo_env demo_heap (node_id (hd demo_nodes)) (nodes (removeEdge ''e'' demo_state))
     (edges (removeEdge ''e'' demo_state)) = [] \<and>
   \<not> participants_mirror_edges demo_env demo_heap (removeEdge ''e'' demo_state) (hd demo_nodes)"
proof -
  have r: "reachable (demo_heap, removeEdge ''e'' demo_state)"
    using demo_world_reachable by (rule reachable.r_removeEdge)
  have "first_team demo_env demo_heap (nodes (removeEdge ''e'' demo_state)) = Some (hd demo_nodes)"
    by (simp add: first_team_def removeEdge_def heap_defs demo_defs node_comp_def)
  moreover have "participant_list demo_heap (node_comp (hd demo_nodes)) = Some [Some 1]"
    by (simp add: participant_list_def heap_defs demo_defs node_comp_def)
  moreover have "team_agents demo_env demo_heap (node_id (hd demo_nodes))
      (nodes (removeEdge ''e'' demo_state)) (edges (removeEdge ''e'' demo_state)) = []"
    by (simp add: removeEdge_def demo_defs)
  ultimately show ?thesis
    using r by (simp add: participants_mirror_edges_def)
qed

subsection \<open>loadFromJson, then syncToJson\<close>


lemma find_node_prefix:
  "\<forall>n \<in> set pre. node_id n \<noteq> i \<Longrightarrow> find_node i (pre @ ns) = find_node i ns"
  by (induction pre) (auto simp: find_node_def)

lemma participant_graph_agents:
  assumes inj: "inj ids"
    and ag: "list_all (\<lambda>p. isAgentComponent E (comps h p)) ps"
  shows "\<forall>n \<in> set pre. \<exists>m<k. node_id n = ids m \<Longrightarrow>
    team_agents E h team (pre @ fst (participant_graph ids h team k (map Some ps)))
      (snd (participant_graph ids h team k (map Some ps))) = ps"
  using ag
proof (induction ps arbitrary: pre k)
  case Nil
  then show ?case by simp
next
  case (Cons p ps)
  let ?n = "new_node (ids k) origin (comps h p) (str_or (label (comps h p)) (name (cfg_of h p))) p"
  let ?g = "participant_graph ids h team (k + 2) (map Some ps)"
  have pre: "\<forall>n \<in> set pre. node_id n \<noteq> ids k"
    using Cons.prems(1) inj by (auto simp: inj_eq)
  have f: "find_node (ids k) (pre @ ?n # fst ?g) = Some ?n"
    using pre by (simp add: find_node_prefix) (simp add: find_node_def new_node_def)
  have pre': "\<forall>n \<in> set (pre @ [?n]). \<exists>m<k + 2. node_id n = ids m"
  proof
    fix n assume "n \<in> set (pre @ [?n])"
    then consider "n \<in> set pre" | "n = ?n" by auto
    then show "\<exists>m<k + 2. node_id n = ids m"
    proof cases
      case 1
      then obtain m where "m < k" "node_id n = ids m" using Cons.prems(1) by blast
      then show ?thesis by (intro exI [of _ m]) simp
    next
      case 2
      then show ?thesis by (intro exI [of _ k]) (simp add: new_node_def)
    qed
  qed
  have ag': "list_all (\<lambda>p. isAgentComponent E (comps h p)) ps" and agp: "isAgentComponent E (comps h p)"
    using Cons.prems(2) by simp_all
  have ih: "team_agents E h team ((pre @ [?n]) @ fst ?g) (snd ?g) = ps"
    using Cons.IH [OF pre' ag'] .
  show ?case
    using f agp ih
    by (simp add: split_beta agent_edge_def) (simp add: new_node_def node_comp_def)
qed

lemma demo_ids_inj: "inj demo_ids"
proof (rule injI)
  fix x y assume "demo_ids x = demo_ids y"
  then have "length (demo_ids x) = length (demo_ids y)" by simp
  then show "x = y" by (simp add: demo_ids_def)
qed

lemma same_data_same_comp:
  assumes "map node_data xs = map node_data ys"
  shows "map node_comp xs = map node_comp ys"
proof -
  have "map node_comp xs = map data_component (map node_data xs)"
    by (simp add: node_comp_def comp_def)
  also have "\<dots> = map data_component (map node_data ys)"
    by (simp only: assms)
  also have "\<dots> = map node_comp ys"
    by (simp add: node_comp_def comp_def)
  finally show ?thesis .
qed

lemma participant_graph_node_comps:
  "map node_comp (fst (participant_graph ids h team k (map Some ps))) = ps"
  by (induction ps arbitrary: k) (auto simp: split_beta new_node_def node_comp_def)

lemma team_agents_sound:
  "p \<in> set (team_agents E h t ns es) \<Longrightarrow>
   isAgentComponent E (comps h p) \<and> p \<in> node_comp ` set ns"
  by (induction es) (auto split: if_splits option.splits dest: find_node_in)

lemma sync_comps:
  assumes "syncToJson E (h, s) = (Some r, h1)"
  shows "next_comp h \<le> r" "\<And>x. x < next_comp h \<Longrightarrow> comps h1 x = comps h x"
  using assms
  by (auto simp: syncToJson_def buildTeamComponent_def new_comp_def new_arr_def set_cfg_def
      split: list.splits prod.splits if_splits)

lemma load_graph:
  assumes conv: "convertTeamConfigToGraph E = convertTeamConfigToGraph_spec ids" and inj: "inj ids"
    and lay: "layout_keeps_graph E"
    and parts: "participant_list h c = Some (map Some ps)"
    and ag: "list_all (\<lambda>p. isAgentComponent E (comps h p)) ps"
  shows "\<exists>s1 tn rest.
     loadFromJson E c True tid (h, s) = (\<lparr>snap_nodes = nodes s1, snap_edges = edges s1\<rparr>, h, s1) \<and>
     nodes s1 = tn # rest \<and> node_comp tn = c \<and> map node_comp rest = ps \<and>
     team_agents E h (node_id tn) (nodes s1) (edges s1) = ps"
proof -
  let ?pg = "participant_graph ids h (ids 0) 1 (map Some ps)"
  let ?tn = "new_node (ids 0) origin (comps h c) (str_or (label (comps h c)) (Some ''Team'')) c"
  let ?ns = "?tn # fst ?pg"
  let ?es = "snd ?pg"
  have pl: "(case participants (cfg_of h c) of None \<Rightarrow> [] | Some pa \<Rightarrow> arrs h pa) = map Some ps"
    using parts by (auto simp: participant_list_def)
  have cv: "convertTeamConfigToGraph E h c tid = (h, ?ns, ?es)"
    unfolding conv convertTeamConfigToGraph_spec_def pl by (simp add: split_beta)
  define g where "g = getLayoutedElements E ?ns ?es tid None"
  have sg: "same_graph g ?ns ?es"
    using lay unfolding g_def layout_keeps_graph_def by simp
  have ids: "map node_id (fst g) = map node_id ?ns" "map node_data (fst g) = map node_data ?ns"
    and es: "snd g = ?es"
    using sg by (simp_all add: same_graph_def)
  define s1 where "s1 = s\<lparr>nodes := fst g, edges := snd g, originalComponent := Some c,
       teamId := truthy_str tid, history := [\<lparr>snap_nodes = fst g, snap_edges = snd g\<rparr>],
       currentHistoryIndex := 0, selectedNodeId := None\<rparr>"
  have load: "loadFromJson E c True tid (h, s) = (\<lparr>snap_nodes = nodes s1, snap_edges = edges s1\<rparr>, h, s1)"
    unfolding g_def s1_def by (simp add: loadFromJson_def cv split_beta)
  obtain tn' rest where fg: "fst g = tn' # rest"
    using ids(1) by (cases "fst g") auto
  have tn': "node_id tn' = ids 0" "node_data tn' = node_data ?tn"
    using ids fg by (simp_all add: new_node_def)
  have nc: "node_comp tn' = c"
    using tn'(2) by (simp add: node_comp_def new_node_def)
  have "map node_comp (fst g) = map node_comp ?ns"
    by (rule same_data_same_comp [OF ids(2)])
  then have rest: "map node_comp rest = ps"
    unfolding fg by (simp add: participant_graph_node_comps)
  have pre: "\<forall>n \<in> set [?tn]. \<exists>m<1. node_id n = ids m"
    by (simp add: new_node_def)
  have "team_agents E h (ids 0) ([?tn] @ fst ?pg) (snd ?pg) = ps"
    using participant_graph_agents [OF inj ag pre] .
  then have "team_agents E h (ids 0) (fst g) (snd g) = ps"
    using team_agents_same_graph [OF ids] es by simp
  then have "team_agents E h (node_id tn') (nodes s1) (edges s1) = ps"
    using tn'(1) by (simp add: s1_def)
  moreover have "nodes s1 = tn' # rest"
    by (simp add: s1_def fg)
  ultimately show ?thesis
    using load nc rest by blast
qed


text \<open>
  C2.  The conversion is the one modelled from the spec, with ids that do not
  repeat, and the layout helper returns the graph it is given.

  From a configuration to the graph and back: the configuration is a team
  component (its \<open>component_type\<close> is "team" and the team guard accepts it)
  whose participant list holds components that the agent guard accepts, all
  allocated objects.  Then loadFromJson with \<open>isInitialLoad = true\<close> followed by
  syncToJson returns a component that is not null, a new object with the
  fields of the configuration's team component, whose participant list is the
  list of agents that the edges of the loaded graph give, and that list holds
  the same agent components in the same order as the configuration.

  From the graph to a configuration and back: the store has a team node (the
  first node whose \<open>component_type\<close> is "team", accepted by the team guard), and
  the components of its nodes are allocated objects.  Then syncToJson returns
  a component whose participant list is the list of agents that the edges of
  the store give, whatever the team node's participant list was before; and
  loadFromJson of that component gives a graph of one node for the component
  followed by one node per agent, whose edges give the same list of agents.
\<close>

theorem load_then_sync_round_trip:
  assumes conv: "convertTeamConfigToGraph E = convertTeamConfigToGraph_spec ids" and inj: "inj ids"
    and lay: "layout_keeps_graph E"
  shows
  "(component_type (comps h c) = ''team'' \<and> isTeamComponent E (comps h c) \<and>
    participant_list h c = Some (map Some ps) \<and>
    list_all (\<lambda>p. isAgentComponent E (comps h p)) ps \<and>
    c < next_comp h \<and> list_all (\<lambda>p. p < next_comp h) ps \<longrightarrow>
    (\<exists>g h1 s1 r h2. loadFromJson E c True tid (h, s) = (g, h1, s1) \<and>
       syncToJson E (h1, s1) = (Some r, h2) \<and>
       next_comp h \<le> r \<and> comps h2 r = comps h c \<and>
       participant_list h2 r =
         Some (map Some (team_agents E h1 (node_id (hd (nodes s1))) (nodes s1) (edges s1))) \<and>
       participant_list h2 r = Some (map Some ps))) \<and>
   (filter (\<lambda>node. component_type (comps h (node_comp node)) = ''team'') (nodes s) =
      teamNode # others \<and>
    isTeamComponent E (comps h (node_comp teamNode)) \<and>
    list_all (\<lambda>n. node_comp n < next_comp h) (nodes s) \<longrightarrow>
    (\<exists>r h1 g s2 tn rest.
       syncToJson E (h, s) = (Some r, h1) \<and>
       participant_list h1 r =
         Some (map Some (team_agents E h (node_id teamNode) (nodes s) (edges s))) \<and>
       loadFromJson E r True tid (h1, s) = (g, h1, s2) \<and>
       nodes s2 = tn # rest \<and> node_comp tn = r \<and>
       map node_comp rest = team_agents E h (node_id teamNode) (nodes s) (edges s) \<and>
       team_agents E h1 (node_id tn) (nodes s2) (edges s2) =
         team_agents E h (node_id teamNode) (nodes s) (edges s)))"
proof (intro conjI impI)
  assume a: "component_type (comps h c) = ''team'' \<and> isTeamComponent E (comps h c) \<and>
    participant_list h c = Some (map Some ps) \<and>
    list_all (\<lambda>p. isAgentComponent E (comps h p)) ps \<and>
    c < next_comp h \<and> list_all (\<lambda>p. p < next_comp h) ps"
  then have team: "component_type (comps h c) = ''team''" "isTeamComponent E (comps h c)"
    and parts: "participant_list h c = Some (map Some ps)"
    and ag: "list_all (\<lambda>p. isAgentComponent E (comps h p)) ps"
    and al: "c < next_comp h" "list_all (\<lambda>p. p < next_comp h) ps"
    by simp_all
  from load_graph [OF conv inj lay parts ag, of tid s]
  obtain s1 tn rest where
    load: "loadFromJson E c True tid (h, s) = (\<lparr>snap_nodes = nodes s1, snap_edges = edges s1\<rparr>, h, s1)"
    and ns: "nodes s1 = tn # rest" "node_comp tn = c" "map node_comp rest = ps"
    and ta: "team_agents E h (node_id tn) (nodes s1) (edges s1) = ps"
    by blast
  have allc: "list_all (\<lambda>n. node_comp n < next_comp h) (nodes s1)"
  proof -
    have "set (map node_comp (nodes s1)) = insert c (set ps)"
      unfolding ns(1) using ns(2,3) by (metis list.simps(15) list.simps(9))
    then show ?thesis
      using al by (auto simp: list_all_iff)
  qed
  obtain rest' where filt: "filter (\<lambda>node. component_type (comps h (node_comp node)) = ''team'') (nodes s1) = tn # rest'"
    using team(1) ns by simp
  have tm: "isTeamComponent E (comps h (node_comp tn))"
    using team(2) ns by simp
  obtain r h2 where sync: "syncToJson E (h, s1) = (r, h2)"
    by (cases "syncToJson E (h, s1)") auto
  from syncToJson_team [OF filt tm allc sync]
  obtain cc where r: "r = Some cc" "comps h2 cc = comps h (node_comp tn)"
    "participant_list h2 cc = Some (map Some (team_agents E h (node_id tn) (nodes s1) (edges s1)))"
    by blast
  have fresh: "next_comp h \<le> cc"
    using sync_comps(1) [of E h s1 cc h2] sync r(1) by simp
  show "\<exists>g h1 s1 r h2. loadFromJson E c True tid (h, s) = (g, h1, s1) \<and>
       syncToJson E (h1, s1) = (Some r, h2) \<and>
       next_comp h \<le> r \<and> comps h2 r = comps h c \<and>
       participant_list h2 r =
         Some (map Some (team_agents E h1 (node_id (hd (nodes s1))) (nodes s1) (edges s1))) \<and>
       participant_list h2 r = Some (map Some ps)"
    using load sync r fresh ns ta by (intro exI [of _ _] exI [of _ h] exI [of _ s1] exI [of _ cc] exI [of _ h2]) simp
next
  assume b: "filter (\<lambda>node. component_type (comps h (node_comp node)) = ''team'') (nodes s) =
      teamNode # others \<and>
    isTeamComponent E (comps h (node_comp teamNode)) \<and>
    list_all (\<lambda>n. node_comp n < next_comp h) (nodes s)"
  let ?A = "team_agents E h (node_id teamNode) (nodes s) (edges s)"
  from b have filt: "filter (\<lambda>node. component_type (comps h (node_comp node)) = ''team'') (nodes s) =
      teamNode # others"
    and tm: "isTeamComponent E (comps h (node_comp teamNode))"
    and allc: "list_all (\<lambda>n. node_comp n < next_comp h) (nodes s)"
    by simp_all
  obtain r h1 where sync: "syncToJson E (h, s) = (r, h1)"
    by (cases "syncToJson E (h, s)") auto
  from syncToJson_team [OF filt tm allc sync]
  obtain cc where r: "r = Some cc" "participant_list h1 cc = Some (map Some ?A)"
    by blast
  have sync': "syncToJson E (h, s) = (Some cc, h1)"
    using sync r(1) by simp
  have ag: "list_all (\<lambda>p. isAgentComponent E (comps h1 p)) ?A"
  proof -
    have "\<And>p. p \<in> set ?A \<Longrightarrow> isAgentComponent E (comps h1 p)"
    proof -
      fix p assume "p \<in> set ?A"
      from team_agents_sound [OF this]
      have 1: "isAgentComponent E (comps h p)" and 2: "p \<in> node_comp ` set (nodes s)"
        by simp_all
      have "p < next_comp h"
        using 2 allc by (auto simp: list_all_iff)
      then show "isAgentComponent E (comps h1 p)"
        using sync_comps(2) [OF sync'] 1 by simp
    qed
    then show ?thesis
      by (simp add: list_all_iff)
  qed
  from load_graph [OF conv inj lay r(2) ag, of tid s]
  obtain s2 tn rest where
    load: "loadFromJson E cc True tid (h1, s) = (\<lparr>snap_nodes = nodes s2, snap_edges = edges s2\<rparr>, h1, s2)"
    and ns: "nodes s2 = tn # rest" "node_comp tn = cc" "map node_comp rest = ?A"
    and ta: "team_agents E h1 (node_id tn) (nodes s2) (edges s2) = ?A"
    by blast
  show "\<exists>r h1 g s2 tn rest.
       syncToJson E (h, s) = (Some r, h1) \<and>
       participant_list h1 r = Some (map Some ?A) \<and>
       loadFromJson E r True tid (h1, s) = (g, h1, s2) \<and>
       nodes s2 = tn # rest \<and> node_comp tn = r \<and>
       map node_comp rest = ?A \<and>
       team_agents E h1 (node_id tn) (nodes s2) (edges s2) = ?A"
    using sync' r(2) load ns ta by blast
qed

text \<open>Evaluation of the example store with the out-of-date participant list.\<close>

lemmas stale_defs =
  stale_world_def removeEdge_def heap_defs demo_defs history_defs addNode_defs

lemma stale_facts:
  "filter (\<lambda>node. component_type (comps (fst stale_world) (node_comp node)) = ''team'')
     (nodes (snd stale_world)) = [hd demo_nodes]"
  "map node_comp (nodes (snd stale_world)) = [0, 1, 2]"
  "map target (edges (snd stale_world)) = [''b'']"
  "next_comp (fst stale_world) = 3"
  "participant_list (fst stale_world) 0 = Some [Some 1, Some 2]"
  "component_type (comps (fst stale_world) 0) = ''team''"
  "component_type (comps (fst stale_world) 1) = ''agent''"
  "component_type (comps (fst stale_world) 2) = ''agent''"
  "team_agents demo_load_env (fst stale_world) ''t'' (nodes (snd stale_world))
     (edges (snd stale_world)) = [2]"
  "list_all (\<lambda>n. node_comp n < next_comp (fst stale_world)) (nodes (snd stale_world))"
  by (simp_all add: stale_defs participant_list_def demo_load_env_def)


theorem load_then_sync_round_trip_witness:
  "convertTeamConfigToGraph demo_load_env = convertTeamConfigToGraph_spec demo_ids \<and>
   inj demo_ids \<and> layout_keeps_graph demo_load_env \<and>
   isTeamComponent demo_load_env (comps (fst stale_world) 0) \<and>
   participant_list (fst stale_world) 0 = Some [Some 1, Some 2] \<and>
   list_all (\<lambda>p. isAgentComponent demo_load_env (comps (fst stale_world) p)) [1, 2] \<and>
   (\<exists>g h1 s1 r h2. loadFromJson demo_load_env 0 True None stale_world = (g, h1, s1) \<and>
      syncToJson demo_load_env (h1, s1) = (Some r, h2) \<and>
      next_comp (fst stale_world) \<le> r \<and>
      participant_list h2 r = Some [Some 1, Some 2]) \<and>
   map target (edges (snd stale_world)) = [''b''] \<and>
   team_agents demo_load_env (fst stale_world) ''t'' (nodes (snd stale_world))
     (edges (snd stale_world)) = [2] \<and>
   (\<exists>r h1 g s2. syncToJson demo_load_env stale_world = (Some r, h1) \<and>
      participant_list h1 r = Some [Some 2] \<and>
      loadFromJson demo_load_env r True None (h1, snd stale_world) = (g, h1, s2) \<and>
      map node_comp (nodes s2) = [r, 2] \<and>
      team_agents demo_load_env h1 (node_id (hd (nodes s2))) (nodes s2) (edges s2) = [2])"
proof -
  let ?h = "fst stale_world" and ?s = "snd stale_world"
  have conv: "convertTeamConfigToGraph demo_load_env = convertTeamConfigToGraph_spec demo_ids"
    by (simp add: demo_load_env_def)
  have lay: "layout_keeps_graph demo_load_env"
    by (simp add: layout_keeps_graph_def same_graph_def demo_load_env_def demo_env_def)
  note f = stale_facts
  have team: "component_type (comps ?h 0) = ''team''" "isTeamComponent demo_load_env (comps ?h 0)"
    using f(6) by (simp_all add: demo_load_env_def demo_env_def)
  have parts: "participant_list ?h 0 = Some (map Some [1, 2])"
    using f(5) by simp
  have ag: "list_all (\<lambda>p. isAgentComponent demo_load_env (comps ?h p)) [1, 2]"
    using f(7,8) by (simp add: demo_load_env_def demo_env_def)
  have al: "0 < next_comp ?h" "list_all (\<lambda>p. p < next_comp ?h) [1, 2]"
    using f(4) by simp_all
  have nc: "node_comp (hd demo_nodes) = 0" "node_id (hd demo_nodes) = ''t''"
    by (simp_all add: demo_nodes_def node_comp_def)
  have filt: "filter (\<lambda>node. component_type (comps ?h (node_comp node)) = ''team'') (nodes ?s) =
      hd demo_nodes # []"
    using f(1) by simp
  have tm: "isTeamComponent demo_load_env (comps ?h (node_comp (hd demo_nodes)))"
    using team(2) nc by simp
  note allc = f(10)
  note main = load_then_sync_round_trip
    [OF conv demo_ids_inj lay, where h = ?h and s = ?s and c = 0 and ps = "[1, 2]"
       and teamNode = "hd demo_nodes" and others = "[]" and tid = None]
  from main team parts ag al
  obtain g h1 s1 r h2 where a:
    "loadFromJson demo_load_env 0 True None (?h, ?s) = (g, h1, s1)"
    "syncToJson demo_load_env (h1, s1) = (Some r, h2)"
    "next_comp ?h \<le> r" "participant_list h2 r = Some (map Some [1, 2])"
    by blast
  from main filt tm allc
  obtain r' h1' g' s2 tn rest where b:
    "syncToJson demo_load_env (?h, ?s) = (Some r', h1')"
    "participant_list h1' r' =
       Some (map Some (team_agents demo_load_env ?h (node_id (hd demo_nodes)) (nodes ?s) (edges ?s)))"
    "loadFromJson demo_load_env r' True None (h1', ?s) = (g', h1', s2)"
    "nodes s2 = tn # rest" "node_comp tn = r'"
    "map node_comp rest = team_agents demo_load_env ?h (node_id (hd demo_nodes)) (nodes ?s) (edges ?s)"
    "team_agents demo_load_env h1' (node_id tn) (nodes s2) (edges s2) =
       team_agents demo_load_env ?h (node_id (hd demo_nodes)) (nodes ?s) (edges ?s)"
    by blast
  have b': "participant_list h1' r' = Some [Some 2]" "map node_comp (nodes s2) = [r', 2]"
    "team_agents demo_load_env h1' (node_id (hd (nodes s2))) (nodes s2) (edges s2) = [2]"
    using b(2,4,5,6,7) unfolding nc f(9) by simp_all
  show ?thesis
    using conv demo_ids_inj lay team(2) f(5) ag a b(1,3) b' f(3,9) by auto
qed

end
